theory Spec2Isabelle
  imports Complex_Main
begin

section \<open>Python primitives used by lod.py\<close>

text \<open>
  The generator \<^verbatim>\<open>lod.py\<close> works on Python integers (unbounded, possibly negative:
  \<^verbatim>\<open>argparse\<close> accepts any integer), on strings, and on the file system. Integers are
  modelled as \<^typ>\<open>int\<close>, strings as \<^typ>\<open>string\<close>. The exceptions that the
  generation phase can raise by itself are a division by zero, a quotient too large for
  a float, and a list index out of range; failures of the operating system (a directory that cannot be created, a file
  that cannot be opened) are not modelled: every \<^verbatim>\<open>os.makedirs\<close> and every
  \<^verbatim>\<open>open(path, 'w')\<close> succeeds. Progress messages printed to standard output are
  left out.
\<close>

datatype error = ZeroDivisionError | OverflowError | IndexError

subsection \<open>\<^verbatim>\<open>str(n)\<close> and \<^verbatim>\<open>f"{n:0{w}}"\<close>\<close>

definition digit_char :: "nat \<Rightarrow> char" where
  "digit_char d = char_of (48 + d)"

fun str_nat :: "nat \<Rightarrow> string" where
  "str_nat n = (if n < 10 then [digit_char n] else str_nat (n div 10) @ [digit_char (n mod 10)])"

declare str_nat.simps [simp del]

text \<open>\<^verbatim>\<open>str(i)\<close> for a Python integer: a minus sign for a negative number, then the
  decimal digits.\<close>

definition str :: "int \<Rightarrow> string" where
  "str i = (if i < 0 then CHR ''-'' # str_nat (nat (- i)) else str_nat (nat i))"

text \<open>\<^verbatim>\<open>f"{i:0{w}}"\<close>: the format specification \<^verbatim>\<open>0w\<close> pads with zeros between
  the sign and the digits up to a total width of \<^verbatim>\<open>w\<close>; a number that needs more
  than \<^verbatim>\<open>w\<close> characters is printed in full.\<close>

definition format_zero :: "int \<Rightarrow> nat \<Rightarrow> string" where
  "format_zero i w =
     (let sign = (if i < 0 then ''-'' else '''');
          digits = str_nat (nat \<bar>i\<bar>)
      in sign @ replicate (w - length sign - length digits) CHR ''0'' @ digits)"

subsection \<open>\<^verbatim>\<open>range\<close>, slices and indexing\<close>

text \<open>\<^verbatim>\<open>range(a, b)\<close> is the list of the integers from \<^verbatim>\<open>a\<close> up to \<^verbatim>\<open>b - 1\<close>, empty
  when \<^verbatim>\<open>b \<le> a\<close>.\<close>

definition range :: "int \<Rightarrow> int \<Rightarrow> int list" where
  "range a b = [a..b - 1]"

text \<open>\<^verbatim>\<open>xs[a:b]\<close>: a negative bound counts from the end, and both bounds are clamped to
  the list.\<close>

definition slice_bound :: "nat \<Rightarrow> int \<Rightarrow> nat" where
  "slice_bound n a = (if a < 0 then nat (max 0 (int n + a)) else min (nat a) n)"

definition slice :: "'a list \<Rightarrow> int \<Rightarrow> int \<Rightarrow> 'a list" where
  "slice xs a b =
     (let lo = slice_bound (length xs) a; hi = slice_bound (length xs) b
      in take (hi - lo) (drop lo xs))"

text \<open>\<^verbatim>\<open>xs[i]\<close>: a negative index counts from the end; out of range raises
  \<^verbatim>\<open>IndexError\<close>.\<close>

definition index :: "'a list \<Rightarrow> int \<Rightarrow> error + 'a" where
  "index xs i =
     (if 0 \<le> i \<and> i < int (length xs) then Inr (xs ! nat i)
      else if i < 0 \<and> - int (length xs) \<le> i then Inr (xs ! nat (int (length xs) + i))
      else Inl IndexError)"

subsection \<open>\<^verbatim>\<open>str.replace\<close>, \<^verbatim>\<open>str.join\<close>, \<^verbatim>\<open>os.path.join\<close>, \<^verbatim>\<open>os.path.basename\<close>\<close>

text \<open>\<^verbatim>\<open>s.replace(old, new)\<close> replaces the occurrences of \<^verbatim>\<open>old\<close> from left to
  right, without overlap; an empty \<^verbatim>\<open>old\<close> matches before every character and at
  the end.\<close>

function replace :: "string \<Rightarrow> string \<Rightarrow> string \<Rightarrow> string" where
  "replace s old new =
     (if old = [] then new @ concat (map (\<lambda>c. c # new) s)
      else if s = [] then []
      else if take (length old) s = old then new @ replace (drop (length old) s) old new
      else hd s # replace (tl s) old new)"
  by pat_completeness auto
termination
  by (relation "measure (\<lambda>(s, old, new). length s)") auto

declare replace.simps [simp del]

text \<open>\<^verbatim>\<open>sep.join(xs)\<close>.\<close>

fun str_join :: "string \<Rightarrow> string list \<Rightarrow> string" where
  "str_join sep [] = []"
| "str_join sep [x] = x"
| "str_join sep (x # y # ys) = x @ sep @ str_join sep (y # ys)"

text \<open>\<^verbatim>\<open>os.path.join(a, b)\<close> of \<^verbatim>\<open>posixpath\<close>: an absolute \<^verbatim>\<open>b\<close> replaces
  \<^verbatim>\<open>a\<close>; otherwise \<^verbatim>\<open>b\<close> is appended, after a separator unless \<^verbatim>\<open>a\<close> is empty
  or already ends with one.\<close>

definition os_path_join :: "string \<Rightarrow> string \<Rightarrow> string" where
  "os_path_join a b =
     (if b \<noteq> [] \<and> hd b = CHR ''/'' then b
      else if a = [] \<or> last a = CHR ''/'' then a @ b
      else a @ ''/'' @ b)"

text \<open>\<^verbatim>\<open>os.path.basename(p)\<close> of \<^verbatim>\<open>posixpath\<close>: what follows the last separator.\<close>

definition os_path_basename :: "string \<Rightarrow> string" where
  "os_path_basename p = rev (takeWhile (\<lambda>c. c \<noteq> CHR ''/'') (rev p))"

subsection \<open>\<^verbatim>\<open>a / b\<close> and \<^verbatim>\<open>math.ceil\<close>\<close>

text \<open>\<^verbatim>\<open>n.bit_length()\<close> of a natural number: the number of binary digits.\<close>

fun bit_length :: "nat \<Rightarrow> nat" where
  "bit_length n = (if n = 0 then 0 else Suc (bit_length (n div 2)))"

declare bit_length.simps [simp del]

text \<open>The binary exponent of the quotient of two positive integers: the \<open>e\<close> with
  \<open>2 ^ e \<le> n / d < 2 ^ (e + 1)\<close>. The difference of the bit lengths is \<open>e\<close> or
  \<open>e + 1\<close>; one comparison decides.\<close>

definition quotient_exponent :: "int \<Rightarrow> int \<Rightarrow> int" where
  "quotient_exponent n d =
     (let k = int (bit_length (nat n)) - int (bit_length (nat d))
      in if (if 0 \<le> k then d * 2 ^ nat k \<le> n else d \<le> n * 2 ^ nat (- k))
         then k else k - 1)"

text \<open>The integer nearest to \<open>n / d\<close> for \<open>n \<ge> 0\<close> and \<open>d > 0\<close>, a tie going to the
  even one.\<close>

definition round_half_even :: "int \<Rightarrow> int \<Rightarrow> int" where
  "round_half_even n d =
     (let q = n div d; r = n mod d
      in if 2 * r < d then q
         else if d < 2 * r then q + 1
         else if even q then q else q + 1)"

text \<open>\<^verbatim>\<open>a / b\<close> on two Python integers is a float: the IEEE 754 double nearest to the
  exact quotient, a tie going to the even significand. A double has a significand of 53
  bits and a binary exponent from \<open>-1022\<close> to \<open>1023\<close>, so at exponent \<open>e\<close> the doubles
  are the multiples of \<open>2 ^ (e - 52)\<close>; below \<open>2 ^ -1022\<close> they are the multiples of
  \<open>2 ^ -1074\<close>, and a quotient nearer to zero than to the first of them becomes zero. The
  division raises \<^verbatim>\<open>ZeroDivisionError\<close> when \<^verbatim>\<open>b\<close> is zero and \<^verbatim>\<open>OverflowError\<close> when the
  rounded quotient is \<open>2 ^ 1024\<close> or more in absolute value. The finite double is
  modelled by the rational number it denotes (the sign of a zero is dropped:
  \<^verbatim>\<open>math.ceil\<close> gives \<^verbatim>\<open>0\<close> for both).\<close>

definition true_divide :: "int \<Rightarrow> int \<Rightarrow> error + rat" where
  "true_divide a b =
     (if b = 0 then Inl ZeroDivisionError
      else if a = 0 then Inr 0
      else
        let n = \<bar>a\<bar>;
            d = \<bar>b\<bar>;
            e = max (quotient_exponent n d) (- 1022);
            magnitude =
              (if e \<le> 52
               then of_int (round_half_even (n * 2 ^ nat (52 - e)) d) / 2 ^ nat (52 - e)
               else of_int (round_half_even n (d * 2 ^ nat (e - 52))) * 2 ^ nat (e - 52))
        in if 2 ^ 1024 \<le> magnitude then Inl OverflowError
           else Inr (if (a < 0) = (b < 0) then magnitude else - magnitude))"

text \<open>\<^verbatim>\<open>math.ceil(x)\<close> of a finite float: the least integer not below it, as a Python
  integer.\<close>

definition math_ceil :: "rat \<Rightarrow> int" where
  "math_ceil x = \<lceil>x\<rceil>"

section \<open>The configuration\<close>

text \<open>The fields of the parsed command line that the generation phase reads.\<close>

record options =
  count_of_leaf_source_files :: int
  library_object_count :: int
  output_directory :: string
  clang :: string
  cflags :: string

section \<open>Names, widths and paths\<close>

definition get_src_name_padding :: "options \<Rightarrow> nat" where
  "get_src_name_padding opts = length (str (count_of_leaf_source_files opts))"

text \<open>\<^verbatim>\<open>math.ceil(count / capacity)\<close>: the quotient is the float of
  \<^const>\<open>true_divide\<close>, so the result is the exact ceiling only as far as the float
  is exact enough, and the call raises what the division raises.\<close>

definition get_num_libraries_to_build :: "options \<Rightarrow> error + int" where
  "get_num_libraries_to_build opts =
     (case true_divide (count_of_leaf_source_files opts) (library_object_count opts) of
        Inl e \<Rightarrow> Inl e
      | Inr q \<Rightarrow> Inr (math_ceil q))"

definition get_lib_name_padding :: "options \<Rightarrow> error + nat" where
  "get_lib_name_padding opts =
     (case get_num_libraries_to_build opts of
        Inl e \<Rightarrow> Inl e
      | Inr n \<Rightarrow> Inr (length (str n)))"

definition get_build_directory :: "options \<Rightarrow> string" where
  "get_build_directory opts = output_directory opts"

definition get_src_directory :: "options \<Rightarrow> string" where
  "get_src_directory opts = os_path_join (get_build_directory opts) ''src''"

definition get_obj_directory :: "options \<Rightarrow> string" where
  "get_obj_directory opts = os_path_join (get_build_directory opts) ''obj''"

definition get_lib_directory :: "options \<Rightarrow> string" where
  "get_lib_directory opts = os_path_join (get_build_directory opts) ''lib''"

definition get_bin_directory :: "options \<Rightarrow> string" where
  "get_bin_directory opts = os_path_join (get_build_directory opts) ''bin''"

text \<open>The path of a generated source file. Whatever the prefix (\<^verbatim>\<open>src\<close>, \<^verbatim>\<open>lib\<close> or
  \<^verbatim>\<open>main\<close>), the index is padded to the width of the leaf count.\<close>

definition get_source_file_path :: "options \<Rightarrow> int \<Rightarrow> string \<Rightarrow> string" where
  "get_source_file_path opts file_index prefix =
     (let src = get_src_directory opts;
          padding = get_src_name_padding opts;
          src_file = prefix @ ''_'' @ format_zero file_index padding @ ''.cpp''
      in os_path_join src src_file)"

definition get_obj_file_path :: "options \<Rightarrow> string \<Rightarrow> string" where
  "get_obj_file_path opts src_file =
     (let obj = get_obj_directory opts;
          obj_file = os_path_basename (replace src_file ''.cpp'' ''.o'')
      in os_path_join obj obj_file)"

definition get_lib_file_path :: "options \<Rightarrow> int \<Rightarrow> error + string" where
  "get_lib_file_path opts lib_index =
     (let lib = get_lib_directory opts in
      case get_lib_name_padding opts of
        Inl e \<Rightarrow> Inl e
      | Inr padding \<Rightarrow>
          Inr (os_path_join lib (''lib_'' @ format_zero lib_index padding @ ''.a'')))"

definition get_get_bin_file_path :: "options \<Rightarrow> string \<Rightarrow> string" where
  "get_get_bin_file_path opts name = os_path_join (get_bin_directory opts) name"

definition get_main_exe :: "options \<Rightarrow> string" where
  "get_main_exe opts = get_get_bin_file_path opts ''lod''"

definition get_ninja_file_path :: "options \<Rightarrow> string" where
  "get_ninja_file_path opts = os_path_join (get_build_directory opts) ''build.ninja''"

text \<open>The partitioner: the leaf indices of library \<^verbatim>\<open>lib_index\<close>, as a half-open
  range.\<close>

definition get_lib_src_indices :: "options \<Rightarrow> int \<Rightarrow> int \<times> int" where
  "get_lib_src_indices opts lib_index =
     (let src_start = lib_index * library_object_count opts;
          src_end = src_start + library_object_count opts
      in (src_start, min src_end (count_of_leaf_source_files opts)))"

section \<open>The file system\<close>

text \<open>The state that the generation phase changes: the directories that exist and the
  contents of the files. \<^verbatim>\<open>os.makedirs(p, exist_ok=True)\<close> records \<^verbatim>\<open>p\<close> (its
  ancestors are not tracked); \<^verbatim>\<open>open(p, 'w')\<close> followed by writes replaces the
  contents of \<^verbatim>\<open>p\<close> by what was written.\<close>

record filesystem =
  dirs :: "string set"
  files :: "string \<rightharpoonup> string"

definition makedirs :: "string \<Rightarrow> filesystem \<Rightarrow> filesystem" where
  "makedirs p fs = fs\<lparr>dirs := insert p (dirs fs)\<rparr>"

definition write_file :: "string \<Rightarrow> string \<Rightarrow> filesystem \<Rightarrow> filesystem" where
  "write_file p contents fs = fs\<lparr>files := (files fs)(p \<mapsto> contents)\<rparr>"

definition create_output_dirs :: "options \<Rightarrow> filesystem \<Rightarrow> filesystem" where
  "create_output_dirs opts fs =
     makedirs (get_bin_directory opts)
       (makedirs (get_lib_directory opts)
         (makedirs (get_obj_directory opts)
           (makedirs (get_src_directory opts)
             (makedirs (get_build_directory opts) fs))))"

section \<open>The generators\<close>

subsection \<open>Leaf units\<close>

text \<open>The fixed text of a leaf unit, before and after the name of its function.\<close>

definition obj_contents_head :: string where
  \<open>obj_contents_head =
     ''\<newline>'' @
     ''        #include <vector>\<newline>'' @
     ''        #include <set>\<newline>'' @
     ''        #include <list>\<newline>'' @
     ''        #include <map>\<newline>'' @
     ''        #include <unordered_map>\<newline>'' @
     ''        #include <unordered_set>\<newline>'' @
     ''        #include <deque>\<newline>'' @
     ''        #include <string>\<newline>'' @
     ''        #include <bitset>\<newline>'' @
     ''        #include <tuple>\<newline>'' @
     ''\<newline>'' @
     ''        int src_''\<close>

definition obj_contents_tail :: string where
  \<open>obj_contents_tail =
     ''() {\<newline>'' @
     ''            std::set<int> s;\<newline>'' @
     ''            s.insert(1);\<newline>'' @
     ''\<newline>'' @
     ''            std::list<int> l;\<newline>'' @
     ''            l.emplace_back(1);\<newline>'' @
     ''\<newline>'' @
     ''            std::map<int, int> m;\<newline>'' @
     ''            m[1] = 1;\<newline>'' @
     ''\<newline>'' @
     ''            std::unordered_map<int, bool> um;\<newline>'' @
     ''            um[1] = false;\<newline>'' @
     ''\<newline>'' @
     ''            std::unordered_set<double> us;\<newline>'' @
     ''            us.insert(1.0);\<newline>'' @
     ''\<newline>'' @
     ''            std::deque<int> d;\<newline>'' @
     ''            d.push_front(1);\<newline>'' @
     ''\<newline>'' @
     ''            std::bitset<8> b8;\<newline>'' @
     ''            b8.set(1);\<newline>'' @
     ''\<newline>'' @
     ''            std::bitset<16> b16;\<newline>'' @
     ''            b16.set(1);\<newline>'' @
     ''\<newline>'' @
     ''            std::string str = "hello";\<newline>'' @
     ''\<newline>'' @
     ''            std::tuple<int, int, int> t = std::make_tuple(1, 2, 3);\<newline>'' @
     ''            std::get<0>(t);\<newline>'' @
     ''\<newline>'' @
     ''            std::vector<int> v;\<newline>'' @
     ''            v.push_back((1));\<newline>'' @
     ''            return v.back();\<newline>'' @
     ''        }\<newline>'' @
     ''        ''\<close>

definition generate_obj_source_file :: "options \<Rightarrow> int \<Rightarrow> filesystem \<Rightarrow> string \<times> filesystem" where
  "generate_obj_source_file opts src_index fs =
     (let padding = get_src_name_padding opts;
          source_path = get_source_file_path opts src_index ''src'';
          contents = obj_contents_head @ format_zero src_index padding @ obj_contents_tail
      in (source_path, write_file source_path contents fs))"

text \<open>The loop of \<^verbatim>\<open>generate_obj_source_files\<close>: one file per index, the paths
  collected in order.\<close>

fun obj_source_loop :: "options \<Rightarrow> int list \<Rightarrow> string list \<Rightarrow> filesystem \<Rightarrow> string list \<times> filesystem" where
  "obj_source_loop opts [] sources fs = (sources, fs)"
| "obj_source_loop opts (i # rest) sources fs =
     (case generate_obj_source_file opts i fs of
        (p, fs') \<Rightarrow> obj_source_loop opts rest (sources @ [p]) fs')"

definition generate_obj_source_files :: "options \<Rightarrow> filesystem \<Rightarrow> string list \<times> filesystem" where
  "generate_obj_source_files opts fs =
     (let num_object_files = count_of_leaf_source_files opts
      in obj_source_loop opts (range 0 num_object_files) [] fs)"

subsection \<open>Library units\<close>

text \<open>The library width is computed before the file is opened, so a zero capacity
  raises before anything is written.\<close>

definition generate_lib_source_file :: "options \<Rightarrow> int \<Rightarrow> filesystem \<Rightarrow> (error + string) \<times> filesystem" where
  "generate_lib_source_file opts lib_index fs =
     (case get_lib_name_padding opts of
        Inl e \<Rightarrow> (Inl e, fs)
      | Inr lib_padding \<Rightarrow>
          (let src_padding = get_src_name_padding opts;
               source_path = get_source_file_path opts lib_index ''lib'';
               (start, end) = get_lib_src_indices opts lib_index;
               contents =
                 concat (map (\<lambda>src. ''int src_'' @ format_zero src src_padding @ ''();\<newline>'')
                           (range start end)) @
                 ''\<newline>'' @
                 ''int lib_'' @ format_zero lib_index lib_padding @ ''() {\<newline>'' @
                 ''  int ret = 0;\<newline>'' @
                 concat (map (\<lambda>src. ''  ret += src_'' @ format_zero src src_padding @ ''();\<newline>'')
                           (range start end)) @
                 ''  return ret;\<newline>'' @
                 ''}\<newline>''
           in (Inr source_path, write_file source_path contents fs)))"

fun lib_source_loop :: "options \<Rightarrow> int list \<Rightarrow> string list \<Rightarrow> filesystem \<Rightarrow> (error + string list) \<times> filesystem" where
  "lib_source_loop opts [] sources fs = (Inr sources, fs)"
| "lib_source_loop opts (i # rest) sources fs =
     (case generate_lib_source_file opts i fs of
        (Inl e, fs') \<Rightarrow> (Inl e, fs')
      | (Inr p, fs') \<Rightarrow> lib_source_loop opts rest (sources @ [p]) fs')"

definition generate_lib_source_files :: "options \<Rightarrow> filesystem \<Rightarrow> (error + string list) \<times> filesystem" where
  "generate_lib_source_files opts fs =
     (case get_num_libraries_to_build opts of
        Inl e \<Rightarrow> (Inl e, fs)
      | Inr num_lib_files \<Rightarrow>
          (case get_lib_name_padding opts of
             Inl e \<Rightarrow> (Inl e, fs)
           | Inr padding \<Rightarrow> lib_source_loop opts (range 0 num_lib_files) [] fs))"

subsection \<open>The root unit\<close>

definition generate_main_source_file :: "options \<Rightarrow> filesystem \<Rightarrow> (error + string) \<times> filesystem" where
  "generate_main_source_file opts fs =
     (case get_num_libraries_to_build opts of
        Inl e \<Rightarrow> (Inl e, fs)
      | Inr num_lib_files \<Rightarrow>
          (case get_lib_name_padding opts of
             Inl e \<Rightarrow> (Inl e, fs)
           | Inr padding \<Rightarrow>
               (let source_path = get_source_file_path opts 0 ''main'';
                    contents =
                      concat (map (\<lambda>src. ''int lib_'' @ format_zero src padding @ ''();\<newline>'')
                                (range 0 num_lib_files)) @
                      ''\<newline>'' @
                      ''int main() {\<newline>'' @
                      ''  int ret = 0;\<newline>'' @
                      concat (map (\<lambda>src. ''  ret += lib_'' @ format_zero src padding @ ''();\<newline>'')
                                (range 0 num_lib_files)) @
                      ''  return ret;\<newline>'' @
                      ''}\<newline>''
                in (Inr source_path, write_file source_path contents fs))))"

definition generate_main_source_files :: "options \<Rightarrow> filesystem \<Rightarrow> (error + string list) \<times> filesystem" where
  "generate_main_source_files opts fs =
     (case generate_main_source_file opts fs of
        (Inl e, fs') \<Rightarrow> (Inl e, fs')
      | (Inr main, fs') \<Rightarrow> (Inr [main], fs'))"

definition generate_source_files ::
  "options \<Rightarrow> filesystem \<Rightarrow> (error + string list \<times> string list \<times> string list) \<times> filesystem" where
  "generate_source_files opts fs =
     (case generate_obj_source_files opts fs of
        (obj_sources, fs1) \<Rightarrow>
          (case generate_lib_source_files opts fs1 of
             (Inl e, fs2) \<Rightarrow> (Inl e, fs2)
           | (Inr lib_sources, fs2) \<Rightarrow>
               (case generate_main_source_files opts fs2 of
                  (Inl e, fs3) \<Rightarrow> (Inl e, fs3)
                | (Inr main_sources, fs3) \<Rightarrow> (Inr (obj_sources, lib_sources, main_sources), fs3))))"

section \<open>The build plan\<close>

fun split_loop ::
  "options \<Rightarrow> string list \<Rightarrow> string list \<Rightarrow> int list \<Rightarrow> (string \<times> string list) list
     \<Rightarrow> error + (string \<times> string list) list" where
  "split_loop opts obj_src lib_src [] libraries = Inr libraries"
| "split_loop opts obj_src lib_src (i # rest) libraries =
     (case get_lib_file_path opts i of
        Inl e \<Rightarrow> Inl e
      | Inr lib_name \<Rightarrow>
          (let (src_start, src_end) = get_lib_src_indices opts i;
               leaves = slice obj_src src_start src_end
           in case index lib_src i of
                Inl e \<Rightarrow> Inl e
              | Inr lib_unit \<Rightarrow>
                  split_loop opts obj_src lib_src rest
                    (libraries @ [(lib_name, leaves @ [lib_unit])])))"

definition split_object_files_into_libraries ::
  "options \<Rightarrow> string list \<Rightarrow> string list \<Rightarrow> error + (string \<times> string list) list" where
  "split_object_files_into_libraries opts obj_src lib_src =
     (case get_num_libraries_to_build opts of
        Inl e \<Rightarrow> Inl e
      | Inr n \<Rightarrow> split_loop opts obj_src lib_src (range 0 n) [])"

text \<open>\<^verbatim>\<open>section(name)\<close> of \<^verbatim>\<open>generate_ninja_file\<close>: the lines it puts.\<close>

definition ninja_section :: "string \<Rightarrow> string list" where
  "ninja_section name = [[], ''#'', ''# '' @ name, ''#'']"

text \<open>The lines of the build plan, in the order in which \<^verbatim>\<open>puts\<close> prints them.\<close>

definition ninja_lines ::
  "options \<Rightarrow> string list \<Rightarrow> string list \<Rightarrow> string list \<Rightarrow> (string \<times> string list) list
     \<Rightarrow> string list" where
  "ninja_lines opts obj_src lib_src main_src libraries =
     (let c = clang opts;
          cflags = ''-Wall -Wextra -O0 -g -gsplit-dwarf '' @ cflags opts;
          linker = clang opts;
          linkflags = ''-g'';
          main_obj_files = map (get_obj_file_path opts) main_src;
          main_lib_files = map fst libraries;
          main_link_inputs = main_obj_files @ main_lib_files;
          main_exe = get_get_bin_file_path opts ''lod''
      in ninja_section ''Variables'' @
         [''c = '' @ c,
          ''cflags = '' @ cflags,
          ''linker = '' @ linker,
          ''linkflags = '' @ linkflags] @
         ninja_section ''Rules'' @
         [''rule cc'',
          ''  command = $c $cflags -c $in -o $out'',
          ''rule archive'',
          ''  command = ar rcs $out $in'',
          ''rule link'',
          ''  command = $linker $linkflags -o $out $in''] @
         ninja_section ''Build object files'' @
         map (\<lambda>src_file. ''build '' @ get_obj_file_path opts src_file @ '': cc '' @ src_file)
           (obj_src @ lib_src @ main_src) @
         ninja_section ''Build libraries'' @
         map (\<lambda>(lib_name, lib_sources).
                ''build '' @ lib_name @ '': archive '' @
                str_join '' '' (map (get_obj_file_path opts) lib_sources))
           libraries @
         ninja_section ''Build main executable'' @
         [''build '' @ main_exe @ '': link '' @ str_join '' '' main_link_inputs] @
         ninja_section ''Define the default target'' @
         [''default '' @ main_exe])"

text \<open>\<^verbatim>\<open>puts(s)\<close> prints \<^verbatim>\<open>s\<close> and a newline into the file. The partition is
  computed before the file is opened.\<close>

definition generate_ninja_file ::
  "options \<Rightarrow> string list \<Rightarrow> string list \<Rightarrow> string list \<Rightarrow> filesystem
     \<Rightarrow> (error + unit) \<times> filesystem" where
  "generate_ninja_file opts obj_src lib_src main_src fs =
     (case split_object_files_into_libraries opts obj_src lib_src of
        Inl e \<Rightarrow> (Inl e, fs)
      | Inr libraries \<Rightarrow>
          (let ninja_file_path = get_ninja_file_path opts;
               contents =
                 concat (map (\<lambda>s. s @ ''\<newline>'')
                           (ninja_lines opts obj_src lib_src main_src libraries))
           in (Inr (), write_file ninja_file_path contents fs)))"

section \<open>The generation phase of \<^verbatim>\<open>main\<close>\<close>

text \<open>What \<^verbatim>\<open>main\<close> does when \<^verbatim>\<open>options.generate\<close> is set: the directories,
  the source files, the build plan. An exception ends the run and leaves the file
  system as it is at that point.\<close>

definition main_generate :: "options \<Rightarrow> filesystem \<Rightarrow> (error + unit) \<times> filesystem" where
  "main_generate opts fs =
     (let fs0 = create_output_dirs opts fs
      in case generate_source_files opts fs0 of
           (Inl e, fs1) \<Rightarrow> (Inl e, fs1)
         | (Inr (obj, lib, main), fs1) \<Rightarrow> generate_ninja_file opts obj lib main fs1)"


section \<open>Example configurations\<close>

definition example_5_2 :: options where
  "example_5_2 =
     \<lparr>count_of_leaf_source_files = 5, library_object_count = 2,
      output_directory = ''build'', clang = ''clang++'', cflags = []\<rparr>"

definition example_10_1000 :: options where
  "example_10_1000 =
     \<lparr>count_of_leaf_source_files = 10, library_object_count = 1000,
      output_directory = ''build'', clang = ''clang++'', cflags = []\<rparr>"

definition example_10_5 :: options where
  "example_10_5 =
     \<lparr>count_of_leaf_source_files = 10, library_object_count = 5,
      output_directory = ''build'', clang = ''clang++'', cflags = []\<rparr>"

definition example_5_0 :: options where
  "example_5_0 =
     \<lparr>count_of_leaf_source_files = 5, library_object_count = 0,
      output_directory = ''build'', clang = ''clang++'', cflags = []\<rparr>"

definition example_0_2 :: options where
  "example_0_2 =
     \<lparr>count_of_leaf_source_files = 0, library_object_count = 2,
      output_directory = ''build'', clang = ''clang++'', cflags = []\<rparr>"



definition empty_filesystem :: filesystem where
  "empty_filesystem = \<lparr>dirs = {}, files = Map.empty\<rparr>"

text \<open>A file system that already holds an older build plan.\<close>

definition stale_filesystem :: filesystem where
  "stale_filesystem =
     \<lparr>dirs = {''build''}, files = [''build/build.ninja'' \<mapsto> ''stale'']\<rparr>"

section \<open>Reading names back\<close>

text \<open>The number that a string of decimal digits denotes, and the test for a decimal
  digit: used to show that padded indices are pairwise different.\<close>

definition digits_value :: "string \<Rightarrow> nat" where
  "digits_value s = foldl (\<lambda>a c. 10 * a + (of_char c - 48)) 0 s"

definition is_digit :: "char \<Rightarrow> bool" where
  "is_digit c = (48 \<le> (of_char c :: nat) \<and> (of_char c :: nat) \<le> 57)"


section \<open>Paths as the specification words them\<close>

text \<open>The specification's wording of the path of the root unit and of a library unit:
  under \<^verbatim>\<open><outputRoot>/src\<close>, the index padded to the width of the library
  count.\<close>

definition spec_root_unit_path :: "options \<Rightarrow> error + string" where
  "spec_root_unit_path opts =
     (case get_lib_name_padding opts of
        Inl e \<Rightarrow> Inl e
      | Inr w \<Rightarrow>
          Inr (os_path_join (os_path_join (output_directory opts) ''src'')
                 (''main_'' @ format_zero 0 w @ ''.cpp'')))"

definition spec_lib_unit_path :: "options \<Rightarrow> int \<Rightarrow> error + string" where
  "spec_lib_unit_path opts j =
     (case get_lib_name_padding opts of
        Inl e \<Rightarrow> Inl e
      | Inr w \<Rightarrow>
          Inr (os_path_join (os_path_join (output_directory opts) ''src'')
                 (''lib_'' @ format_zero j w @ ''.cpp'')))"

section \<open>The effect of a run on the file system\<close>

text \<open>Adding directories and replacing the contents of some files: every step of
  the generation phase changes the file system in this way.\<close>

definition overlay :: "string set \<Rightarrow> (string \<rightharpoonup> string) \<Rightarrow> filesystem \<Rightarrow> filesystem" where
  "overlay D M fs = fs\<lparr>dirs := dirs fs \<union> D, files := files fs ++ M\<rparr>"

text \<open>The leaf files that the loop over the given indices leaves behind.\<close>

primrec leaf_files :: "options \<Rightarrow> int list \<Rightarrow> (string \<rightharpoonup> string)" where
  "leaf_files opts [] = Map.empty"
| "leaf_files opts (i # rest) =
     [get_source_file_path opts i ''src'' \<mapsto>
        obj_contents_head @ format_zero i (get_src_name_padding opts) @ obj_contents_tail]
     ++ leaf_files opts rest"

section \<open>The build plan, edge by edge\<close>

text \<open>The layout of the generated files: a unit's source under \<^verbatim>\<open>src\<close>, its object
  under \<^verbatim>\<open>obj\<close> with the unit's base name, a library archive under \<^verbatim>\<open>lib\<close>, the
  executable under \<^verbatim>\<open>bin\<close>. Source and object names carry the index padded to the
  width of the leaf count; archive names carry it padded to the width of the library
  count \<open>n\<close>.\<close>

definition unit_source :: "options \<Rightarrow> string \<Rightarrow> int \<Rightarrow> string" where
  "unit_source opts prefix i =
     os_path_join (os_path_join (output_directory opts) ''src'')
       (prefix @ ''_'' @ format_zero i (length (str (count_of_leaf_source_files opts))) @ ''.cpp'')"

definition unit_object :: "options \<Rightarrow> string \<Rightarrow> int \<Rightarrow> string" where
  "unit_object opts prefix i =
     os_path_join (os_path_join (output_directory opts) ''obj'')
       (prefix @ ''_'' @ format_zero i (length (str (count_of_leaf_source_files opts))) @ ''.o'')"

definition library_archive :: "options \<Rightarrow> int \<Rightarrow> int \<Rightarrow> string" where
  "library_archive opts n j =
     os_path_join (os_path_join (output_directory opts) ''lib'')
       (''lib_'' @ format_zero j (length (str n)) @ ''.a'')"

definition executable :: "options \<Rightarrow> string" where
  "executable opts = os_path_join (os_path_join (output_directory opts) ''bin'') ''lod''"

text \<open>The edges of the build plan: a compile edge from a unit to its object, an archive
  edge from the leaf objects of partition \<open>j\<close> and the object of library unit \<open>j\<close> to
  the archive, the link edge from the root object and the archives in partition order
  to the executable, and the default target.\<close>

definition compile_edge :: "options \<Rightarrow> string \<Rightarrow> int \<Rightarrow> string" where
  "compile_edge opts prefix i =
     ''build '' @ unit_object opts prefix i @ '': cc '' @ unit_source opts prefix i"

definition archive_edge :: "options \<Rightarrow> int \<Rightarrow> int \<Rightarrow> string" where
  "archive_edge opts n j =
     ''build '' @ library_archive opts n j @ '': archive '' @
     str_join '' ''
       (map (unit_object opts ''src'')
          (range (j * library_object_count opts)
                 (min ((j + 1) * library_object_count opts) (count_of_leaf_source_files opts)))
        @ [unit_object opts ''lib'' j])"

definition link_edge :: "options \<Rightarrow> int \<Rightarrow> string" where
  "link_edge opts n =
     ''build '' @ executable opts @ '': link '' @
     str_join '' '' (unit_object opts ''main'' 0 # map (library_archive opts n) (range 0 n))"

definition default_target :: "options \<Rightarrow> string" where
  "default_target opts = ''default '' @ executable opts"

text \<open>The variable and rule definitions that open the build plan.\<close>

definition plan_preamble :: "options \<Rightarrow> string list" where
  "plan_preamble opts =
     [[], ''#'', ''# Variables'', ''#'',
      ''c = '' @ clang opts,
      ''cflags = -Wall -Wextra -O0 -g -gsplit-dwarf '' @ cflags opts,
      ''linker = '' @ clang opts,
      ''linkflags = -g'',
      [], ''#'', ''# Rules'', ''#'',
      ''rule cc'',
      ''  command = $c $cflags -c $in -o $out'',
      ''rule archive'',
      ''  command = ar rcs $out $in'',
      ''rule link'',
      ''  command = $linker $linkflags -o $out $in'']"

text \<open>The whole plan, line by line, for \<open>n\<close> libraries.\<close>

definition plan_lines :: "options \<Rightarrow> int \<Rightarrow> string list" where
  "plan_lines opts n =
     plan_preamble opts @
     [[], ''#'', ''# Build object files'', ''#''] @
     map (compile_edge opts ''src'') (range 0 (count_of_leaf_source_files opts)) @
     map (compile_edge opts ''lib'') (range 0 n) @
     [compile_edge opts ''main'' 0] @
     [[], ''#'', ''# Build libraries'', ''#''] @
     map (archive_edge opts n) (range 0 n) @
     [[], ''#'', ''# Build main executable'', ''#''] @
     [link_edge opts n] @
     [[], ''#'', ''# Define the default target'', ''#''] @
     [default_target opts]"

section \<open>The artifacts of a run\<close>

text \<open>The artifact entities of a run: the source and the object of every leaf unit,
  of every library unit and of the root unit, the archive of every library, the
  executable and the build plan.\<close>

datatype artifact =
    LeafSource int | LibrarySource int | RootSource
  | LeafObject int | LibraryObject int | RootObject
  | Archive int | Executable | BuildPlan

fun artifact_path :: "options \<Rightarrow> int \<Rightarrow> artifact \<Rightarrow> string" where
  "artifact_path opts n (LeafSource i) = unit_source opts ''src'' i"
| "artifact_path opts n (LibrarySource j) = unit_source opts ''lib'' j"
| "artifact_path opts n RootSource = unit_source opts ''main'' 0"
| "artifact_path opts n (LeafObject i) = unit_object opts ''src'' i"
| "artifact_path opts n (LibraryObject j) = unit_object opts ''lib'' j"
| "artifact_path opts n RootObject = unit_object opts ''main'' 0"
| "artifact_path opts n (Archive j) = library_archive opts n j"
| "artifact_path opts n Executable = executable opts"
| "artifact_path opts n BuildPlan = os_path_join (output_directory opts) ''build.ninja''"

fun artifact_index :: "artifact \<Rightarrow> int" where
  "artifact_index (LeafSource i) = i"
| "artifact_index (LibrarySource j) = j"
| "artifact_index (LeafObject i) = i"
| "artifact_index (LibraryObject j) = j"
| "artifact_index (Archive j) = j"
| "artifact_index a = 0"

text \<open>The artifacts of a run with \<open>L\<close> leaves and \<open>n\<close> libraries.\<close>

definition all_artifacts :: "int \<Rightarrow> int \<Rightarrow> artifact list" where
  "all_artifacts L n =
     map LeafSource (range 0 L) @ map LibrarySource (range 0 n) @ [RootSource] @
     map LeafObject (range 0 L) @ map LibraryObject (range 0 n) @ [RootObject] @
     map Archive (range 0 n) @ [Executable, BuildPlan]"

text \<open>The file name of an artifact, and the pair of its first and last character, which
  tells the kinds of artifacts apart.\<close>

fun artifact_name :: "options \<Rightarrow> int \<Rightarrow> artifact \<Rightarrow> string" where
  "artifact_name opts n (LeafSource i) =
     ''src_'' @ format_zero i (length (str (count_of_leaf_source_files opts))) @ ''.cpp''"
| "artifact_name opts n (LibrarySource j) =
     ''lib_'' @ format_zero j (length (str (count_of_leaf_source_files opts))) @ ''.cpp''"
| "artifact_name opts n RootSource =
     ''main_'' @ format_zero 0 (length (str (count_of_leaf_source_files opts))) @ ''.cpp''"
| "artifact_name opts n (LeafObject i) =
     ''src_'' @ format_zero i (length (str (count_of_leaf_source_files opts))) @ ''.o''"
| "artifact_name opts n (LibraryObject j) =
     ''lib_'' @ format_zero j (length (str (count_of_leaf_source_files opts))) @ ''.o''"
| "artifact_name opts n RootObject =
     ''main_'' @ format_zero 0 (length (str (count_of_leaf_source_files opts))) @ ''.o''"
| "artifact_name opts n (Archive j) = ''lib_'' @ format_zero j (length (str n)) @ ''.a''"
| "artifact_name opts n Executable = ''lod''"
| "artifact_name opts n BuildPlan = ''build.ninja''"

definition name_key :: "string \<Rightarrow> char \<times> char" where
  "name_key b = (hd b, last b)"

fun artifact_key :: "artifact \<Rightarrow> char \<times> char" where
  "artifact_key (LeafSource i) = (CHR ''s'', CHR ''p'')"
| "artifact_key (LibrarySource j) = (CHR ''l'', CHR ''p'')"
| "artifact_key RootSource = (CHR ''m'', CHR ''p'')"
| "artifact_key (LeafObject i) = (CHR ''s'', CHR ''o'')"
| "artifact_key (LibraryObject j) = (CHR ''l'', CHR ''o'')"
| "artifact_key RootObject = (CHR ''m'', CHR ''o'')"
| "artifact_key (Archive j) = (CHR ''l'', CHR ''a'')"
| "artifact_key Executable = (CHR ''l'', CHR ''d'')"
| "artifact_key BuildPlan = (CHR ''b'', CHR ''a'')"

section \<open>Reading a generated unit\<close>



text \<open>What stands between a given start and a given end of a line, when the line has
  them.\<close>

definition strip_affix :: "string \<Rightarrow> string \<Rightarrow> string \<Rightarrow> string option" where
  "strip_affix pre suf l =
     (if length pre + length suf \<le> length l \<and> take (length pre) l = pre
         \<and> drop (length l - length suf) l = suf
      then Some (take (length l - length pre - length suf) (drop (length pre) l))
      else None)"







section \<open>The float quotient\<close>


text \<open>The exact ceiling of a quotient of integers, the bit length as a logarithm, and
  the two bounds on the rounded integer that the comparison of the float ceiling with
  the exact one needs.\<close>

lemma ceil_div_bounds:
  fixes a b :: int
  assumes "1 \<le> b"
  shows "(- ((- a) div b) - 1) * b < a" and "a \<le> - ((- a) div b) * b"
proof -
  define q where "q = (- a) div b"
  define r where "r = (- a) mod b"
  have e: "q * b + r = - a" unfolding q_def r_def by simp
  have r: "0 \<le> r" "r < b" using assms unfolding r_def by simp_all
  show "(- ((- a) div b) - 1) * b < a" using e r unfolding q_def[symmetric] by (simp add: algebra_simps)
  show "a \<le> - ((- a) div b) * b" using e r unfolding q_def[symmetric] by (simp add: algebra_simps)
qed

lemma bit_length_bounds:
  "0 < n \<Longrightarrow> 2 ^ (bit_length n - 1) \<le> n \<and> n < 2 ^ bit_length n"
proof (induction n rule: bit_length.induct)
  case (1 n)
  have bl: "bit_length n = Suc (bit_length (n div 2))"
    using 1(2) by (subst bit_length.simps) simp
  show ?case
  proof (cases "n div 2 = 0")
    case True
    then have "bit_length (n div 2) = 0" by (simp add: bit_length.simps)
    moreover from True 1(2) have "n = 1" by (simp add: div_eq_0_iff)
    ultimately show ?thesis using bl by simp
  next
    case False
    with 1 have IH: "2 ^ (bit_length (n div 2) - 1) \<le> n div 2"
      "n div 2 < 2 ^ bit_length (n div 2)" by simp_all
    from False obtain k where k: "bit_length (n div 2) = Suc k"
      by (subst (asm) bit_length.simps) (cases "bit_length (n div 2)"; simp add: bit_length.simps)
    from IH k have "2 ^ k \<le> n div 2" "n div 2 < 2 * 2 ^ k" by simp_all
    then have "2 * 2 ^ k \<le> n" "n < 2 * (2 * 2 ^ k)" by arith+
    then show ?thesis using bl k by simp
  qed
qed

lemma bit_length_range:
  assumes "0 < n" "n < 2 ^ 53"
  shows "1 \<le> bit_length n" "bit_length n \<le> 53"
proof -
  show "1 \<le> bit_length n" using assms(1) by (subst bit_length.simps) simp
  from bit_length_bounds [OF assms(1)] assms(2)
  have "(2::nat) ^ (bit_length n - 1) < 2 ^ 53" by simp
  then have "bit_length n - 1 < 53" by (simp only: power_strict_increasing_iff rel_simps)
  then show "bit_length n \<le> 53" by simp
qed

lemma quotient_exponent_bounds:
  assumes "0 < n" "n < 2 ^ 53" "0 < d" "d < 2 ^ 53"
  shows "- 53 \<le> quotient_exponent n d" "quotient_exponent n d \<le> 52"
    "0 \<le> quotient_exponent n d \<Longrightarrow> d * 2 ^ nat (quotient_exponent n d) \<le> n"
proof -
  define bn where "bn = bit_length (nat n)"
  define bd where "bd = bit_length (nat d)"
  have n: "0 < nat n" "nat n < 2 ^ 53" using assms(1,2) by (simp_all add: nat_less_iff)
  have d: "0 < nat d" "nat d < 2 ^ 53" using assms(3,4) by (simp_all add: nat_less_iff)
  have bn: "1 \<le> bn" "bn \<le> 53" unfolding bn_def using bit_length_range [OF n] by simp_all
  have bd: "1 \<le> bd" "bd \<le> 53" unfolding bd_def using bit_length_range [OF d] by simp_all
  have e: "quotient_exponent n d = int bn - int bd \<or> quotient_exponent n d = int bn - int bd - 1"
    by (simp add: quotient_exponent_def Let_def bn_def bd_def)
  show "- 53 \<le> quotient_exponent n d" using e bn bd by auto
  show "quotient_exponent n d \<le> 52" using e bn bd by auto
  show "d * 2 ^ nat (quotient_exponent n d) \<le> n" if nonneg: "0 \<le> quotient_exponent n d"
  proof (cases "quotient_exponent n d = int bn - int bd")
    case True
    with nonneg show ?thesis
      by (simp add: quotient_exponent_def Let_def bn_def bd_def split: if_splits)
  next
    case False
    with e have k: "quotient_exponent n d = int bn - int bd - 1" by simp
    with nonneg have le: "bd + 1 \<le> bn" by simp
    from bit_length_bounds [OF n(1)] have "2 ^ (bn - 1) \<le> nat n" by (simp add: bn_def)
    then have lo: "(2::int) ^ (bn - 1) \<le> n" using assms(1) by (simp add: le_nat_iff)
    from bit_length_bounds [OF d(1)] have "nat d < 2 ^ bd" by (simp add: bd_def)
    then have hi: "d < 2 ^ bd" using assms(3) by (simp add: nat_less_iff)
    have "nat (int bn - int bd - 1) = bn - bd - 1" by simp
    then have "d * 2 ^ nat (quotient_exponent n d) = d * 2 ^ (bn - bd - 1)" by (simp add: k)
    also have "\<dots> \<le> 2 ^ bd * 2 ^ (bn - bd - 1)"
      using hi by (intro mult_right_mono) simp_all
    also have "\<dots> = 2 ^ (bn - 1)" using le by (simp flip: power_add)
    finally show ?thesis using lo by simp
  qed
qed

lemma round_half_even_le:
  assumes "0 < d" "n \<le> j * d"
  shows "round_half_even n d \<le> j"
proof -
  define q where "q = n div d"
  define r where "r = n mod d"
  have m: "q * d + r = n" unfolding q_def r_def by simp
  have r: "0 \<le> r" "r < d" using assms(1) unfolding r_def by simp_all
  have q: "q \<le> j"
    unfolding q_def using zdiv_mono1 [OF assms(2) assms(1)] assms(1) by simp
  have "q < j" if "0 < r"
  proof (rule ccontr)
    assume "\<not> q < j"
    with q have "q = j" by simp
    with m that assms(2) show False by simp
  qed
  then have "q + 1 \<le> j" if "d \<le> 2 * r" using that assms(1) by simp
  then show ?thesis using q
    unfolding round_half_even_def Let_def q_def [symmetric] r_def [symmetric] by simp
qed

lemma round_half_even_gt:
  assumes "0 < d" "2 * (j * d) + d < 2 * n"
  shows "j < round_half_even n d"
proof -
  define q where "q = n div d"
  define r where "r = n mod d"
  have m: "q * d + r = n" unfolding q_def r_def by simp
  have r: "0 \<le> r" "r < d" using assms(1) unfolding r_def by simp_all
  have q: "j \<le> q"
  proof (rule ccontr)
    assume "\<not> j \<le> q"
    then have "q + 1 \<le> j" by simp
    then have "(q + 1) * d \<le> j * d" using assms(1) by (intro mult_right_mono) simp_all
    then have "q * d + d \<le> j * d" by (simp add: algebra_simps)
    with m r assms(2) show False by simp
  qed
  have "d < 2 * r" if "q = j"
    using m assms(2) that by (simp add: algebra_simps)
  then have "q = j \<longrightarrow> d < 2 * r" by simp
  then show ?thesis using q
    unfolding round_half_even_def Let_def q_def [symmetric] r_def [symmetric] by auto
qed

lemma true_divide_exact:
  assumes "0 < a" "a < 2 ^ 53" "0 < b" "b < 2 ^ 53"
  shows "\<exists>q. true_divide a b = Inr q \<and> math_ceil q = - ((- a) div b)"
proof -
  define e where "e = quotient_exponent a b"
  have e: "- 53 \<le> e" "e \<le> 52" "0 \<le> e \<Longrightarrow> b * 2 ^ nat e \<le> a"
    unfolding e_def using quotient_exponent_bounds [OF assms] by simp_all
  define Q :: int where "Q = 2 ^ nat (52 - e)"
  define m where "m = round_half_even (a * Q) b"
  define k where "k = - ((- a) div b)"
  have k: "(k - 1) * b < a" "a \<le> k * b"
    unfolding k_def using ceil_div_bounds [of b a] assms(3) by simp_all
  have Q: "0 < Q" by (simp add: Q_def)
  have bQ: "b < 2 * Q"
  proof (cases "0 \<le> e")
    case True
    have "b * 2 ^ nat e < 2 ^ 53" using e(3) [OF True] assms(2) by simp
    also have "(2::int) ^ 53 = 2 * Q * 2 ^ nat e"
    proof -
      have "53 = Suc (nat (52 - e) + nat e)" using True e(2) by simp
      then show ?thesis unfolding Q_def by (simp only: power_Suc power_add mult.assoc)
    qed
    finally show ?thesis by simp
  next
    case False
    then have "(2::int) ^ 52 \<le> 2 ^ nat (52 - e)"
      by (intro power_increasing) simp_all
    with assms(4) show ?thesis by (simp add: Q_def)
  qed
  have up: "m \<le> k * Q"
    unfolding m_def
  proof (rule round_half_even_le [OF assms(3)])
    have "a * Q \<le> k * b * Q" using k(2) Q by (intro mult_right_mono) simp_all
    then show "a * Q \<le> k * Q * b" by (simp add: mult_ac)
  qed
  have lo: "(k - 1) * Q < m"
    unfolding m_def
  proof (rule round_half_even_gt [OF assms(3)])
    have "1 \<le> a - (k - 1) * b" using k(1) by simp
    then have "1 * (2 * Q) \<le> (a - (k - 1) * b) * (2 * Q)"
      using Q by (intro mult_right_mono) simp_all
    with bQ have "b < (a - (k - 1) * b) * (2 * Q)" by simp
    then show "2 * ((k - 1) * Q * b) + b < 2 * (a * Q)" by (simp add: algebra_simps)
  qed
  have kpos: "1 \<le> k"
  proof (rule ccontr)
    assume "\<not> 1 \<le> k"
    then have "k \<le> 0" by simp
    then have "k * b \<le> 0 * b" using assms(3) by (intro mult_right_mono) simp_all
    with k(2) assms(1) show False by simp
  qed
  have ka: "k \<le> a"
  proof -
    have "(k - 1) * 1 \<le> (k - 1) * b" using kpos assms(3) by (intro mult_left_mono) simp_all
    with k(1) show ?thesis by simp
  qed
  define x :: rat where "x = of_int m / of_int Q"
  have x_le: "x \<le> of_int k"
  proof -
    have "(of_int m :: rat) \<le> of_int (k * Q)" using up by (simp only: of_int_le_iff)
    then show ?thesis using Q by (simp add: x_def pos_divide_le_eq)
  qed
  have x_gt: "of_int k - 1 < x"
  proof -
    have "(of_int ((k - 1) * Q) :: rat) < of_int m" using lo by (simp only: of_int_less_iff)
    then show ?thesis using Q by (simp add: x_def pos_less_divide_eq)
  qed
  have "(of_int k :: rat) < 2 ^ 1024"
  proof -
    have "k < 2 ^ 53" using ka assms(2) by simp
    also have "(2::int) ^ 53 < 2 ^ 1024" by simp
    finally have "(of_int k :: rat) < of_int (2 ^ 1024)" by (simp only: of_int_less_iff)
    then show ?thesis by simp
  qed
  with x_le have no_overflow: "\<not> 2 ^ 1024 \<le> x" by simp
  have "max e (- 1022) = e" using e(1) by simp
  then have "true_divide a b = Inr x"
    using assms(1,3) e(2) no_overflow
    by (simp add: true_divide_def Let_def x_def m_def Q_def flip: e_def)
  moreover have "math_ceil x = k"
    unfolding math_ceil_def using x_gt x_le by (rule ceiling_unique)
  ultimately show ?thesis by (simp add: k_def)
qed

text \<open>Below \<open>2 ^ 53\<close> the ceiling of the float quotient is the ceiling of the exact
  quotient.\<close>

lemma num_libraries_zero_capacity:
  "library_object_count opts = 0 \<Longrightarrow> get_num_libraries_to_build opts = Inl ZeroDivisionError"
  by (simp add: get_num_libraries_to_build_def true_divide_def)

lemma num_libraries_no_leaves:
  "count_of_leaf_source_files opts = 0 \<Longrightarrow> library_object_count opts \<noteq> 0 \<Longrightarrow>
   get_num_libraries_to_build opts = Inr 0"
  by (simp add: get_num_libraries_to_build_def true_divide_def math_ceil_def)

lemma num_libraries_ok:
  assumes "0 \<le> count_of_leaf_source_files opts" "count_of_leaf_source_files opts < 2 ^ 53"
    "1 \<le> library_object_count opts" "library_object_count opts < 2 ^ 53"
  shows "get_num_libraries_to_build opts =
     Inr (- ((- count_of_leaf_source_files opts) div library_object_count opts))"
proof (cases "count_of_leaf_source_files opts = 0")
  case True
  then show ?thesis using assms(3) by (simp add: num_libraries_no_leaves)
next
  case False
  then have "0 < count_of_leaf_source_files opts" using assms(1) by simp
  moreover have "0 < library_object_count opts" using assms(3) by simp
  ultimately obtain q where
    "true_divide (count_of_leaf_source_files opts) (library_object_count opts) = Inr q"
    "math_ceil q = - ((- count_of_leaf_source_files opts) div library_object_count opts)"
    using true_divide_exact [OF _ assms(2) _ assms(4)] by blast
  then show ?thesis by (simp add: get_num_libraries_to_build_def)
qed

lemma num_libraries_examples:
  "get_num_libraries_to_build example_5_2 = Inr 3"
  "get_num_libraries_to_build example_10_1000 = Inr 1"
  "get_num_libraries_to_build example_10_5 = Inr 2"
  "get_num_libraries_to_build example_0_2 = Inr 0"
  "get_num_libraries_to_build example_5_0 = Inl ZeroDivisionError"
proof -
  show "get_num_libraries_to_build example_5_2 = Inr 3"
    using num_libraries_ok [of example_5_2] by (simp add: example_5_2_def)
  show "get_num_libraries_to_build example_10_1000 = Inr 1"
    using num_libraries_ok [of example_10_1000] by (simp add: example_10_1000_def)
  show "get_num_libraries_to_build example_10_5 = Inr 2"
    using num_libraries_ok [of example_10_5] by (simp add: example_10_5_def)
  show "get_num_libraries_to_build example_0_2 = Inr 0"
    using num_libraries_ok [of example_0_2] by (simp add: example_0_2_def)
  show "get_num_libraries_to_build example_5_0 = Inl ZeroDivisionError"
    by (simp add: num_libraries_zero_capacity example_5_0_def)
qed




section \<open>Arithmetic of the partition\<close>




lemma lib_src_indices_eq:
  "get_lib_src_indices opts i =
     (i * library_object_count opts,
      min ((i + 1) * library_object_count opts) (count_of_leaf_source_files opts))"
  by (simp add: get_lib_src_indices_def Let_def algebra_simps)

lemma length_range: "length (range a b) = nat (b - a)"
  by (simp add: range_def)

lemma set_range: "set (range a b) = {a..<b}"
  by (auto simp: range_def)





section \<open>Decimal numerals and zero padding\<close>

lemma of_char_digit_char: "d < 10 \<Longrightarrow> (of_char (digit_char d) :: nat) = 48 + d"
  by (simp add: digit_char_def)

lemma is_digit_digit_char: "d < 10 \<Longrightarrow> is_digit (digit_char d)"
  by (simp add: is_digit_def of_char_digit_char)

lemma digits_value_snoc:
  "digits_value (s @ [c]) = 10 * digits_value s + (of_char c - 48)"
  by (simp add: digits_value_def)

lemma digits_value_str_nat: "digits_value (str_nat n) = n"
proof (induction n rule: str_nat.induct)
  case (1 n)
  show ?case
  proof (cases "n < 10")
    case True
    then show ?thesis
      by (subst str_nat.simps) (simp add: digits_value_def of_char_digit_char)
  next
    case False
    then have "digits_value (str_nat (n div 10)) = n div 10" using 1 by simp
    then show ?thesis using False
      by (subst str_nat.simps) (simp add: digits_value_snoc of_char_digit_char)
  qed
qed

lemma str_nat_digits: "c \<in> set (str_nat n) \<Longrightarrow> is_digit c"
proof (induction n rule: str_nat.induct)
  case (1 n)
  show ?case
  proof (cases "n < 10")
    case True
    then show ?thesis using 1(2)
      by (subst (asm) str_nat.simps) (simp add: is_digit_digit_char)
  next
    case False
    then show ?thesis using 1
      by (subst (asm) (2) str_nat.simps) (auto simp: is_digit_digit_char)
  qed
qed

lemma str_nat_nonempty: "str_nat n \<noteq> []"
  by (subst str_nat.simps) simp

lemma digit_char_values:
  "digit_char 0 = CHR ''0''" "digit_char 1 = CHR ''1''" "digit_char 2 = CHR ''2''"
  "digit_char 3 = CHR ''3''" "digit_char 4 = CHR ''4''" "digit_char 5 = CHR ''5''"
  "digit_char 6 = CHR ''6''" "digit_char 7 = CHR ''7''" "digit_char 8 = CHR ''8''"
  "digit_char 9 = CHR ''9''"
  by code_simp+

lemma str_nat_0: "str_nat 0 = ''0''"
  by (subst str_nat.simps) (simp add: digit_char_values)

lemma length_str_nat_mono: "n \<le> m \<Longrightarrow> length (str_nat n) \<le> length (str_nat m)"
proof (induction m arbitrary: n rule: str_nat.induct)
  case (1 m)
  show ?case
  proof (cases "n < 10")
    case True
    have "1 \<le> length (str_nat m)" using str_nat_nonempty[of m] by (cases "str_nat m") simp_all
    moreover have "length (str_nat n) = 1" using True by (subst str_nat.simps) simp
    ultimately show ?thesis by simp
  next
    case False
    then have m: "\<not> m < 10" using 1(2) by simp
    have "n div 10 \<le> m div 10" using 1(2) by (rule div_le_mono)
    then have "length (str_nat (n div 10)) \<le> length (str_nat (m div 10))"
      using 1(1)[OF m] by simp
    then show ?thesis using False m
      by (subst str_nat.simps, subst (2) str_nat.simps) simp
  qed
qed

lemma digits_value_zeros: "digits_value (replicate k CHR ''0'' @ s) = digits_value s"
proof -
  have "foldl (\<lambda>a c. 10 * a + (of_char c - 48)) 0 (replicate k CHR ''0'') = (0::nat)"
    by (induction k) (simp_all add: replicate_app_Cons_same)
  then show ?thesis by (simp add: digits_value_def)
qed

lemma format_zero_nonneg:
  "0 \<le> i \<Longrightarrow> format_zero i w = replicate (w - length (str_nat (nat i))) CHR ''0'' @ str_nat (nat i)"
  by (simp add: format_zero_def Let_def)

lemma format_zero_value: "0 \<le> i \<Longrightarrow> digits_value (format_zero i w) = nat i"
  by (simp add: format_zero_nonneg digits_value_zeros digits_value_str_nat)

lemma format_zero_inj:
  assumes "0 \<le> i" "0 \<le> j" "format_zero i w = format_zero j w'"
  shows "i = j"
proof -
  have "nat i = nat j" using assms format_zero_value[of i w] format_zero_value[of j w'] by simp
  then show ?thesis using assms by simp
qed

lemma format_zero_digits: "0 \<le> i \<Longrightarrow> c \<in> set (format_zero i w) \<Longrightarrow> is_digit c"
  by (auto simp: format_zero_nonneg is_digit_def dest: str_nat_digits)

lemma format_zero_nonempty: "format_zero i w \<noteq> []"
  by (simp add: format_zero_def Let_def str_nat_nonempty)

lemma format_zero_0: "0 < w \<Longrightarrow> format_zero 0 w = replicate w CHR ''0''"
proof -
  assume "0 < w"
  then have "replicate (w - 1) CHR ''0'' @ ''0'' = replicate w CHR ''0''"
    by (cases w) (simp_all add: replicate_append_same)
  then show ?thesis by (simp add: format_zero_nonneg str_nat_0)
qed

lemma str_nonneg: "0 \<le> i \<Longrightarrow> str i = str_nat (nat i)"
  by (simp add: str_def)

lemma length_format_zero:
  "0 \<le> i \<Longrightarrow> length (format_zero i w) = max w (length (str_nat (nat i)))"
  by (simp add: format_zero_nonneg)


section \<open>Paths, base names and object names\<close>

lemma join_cases:
  assumes "b \<noteq> []" "hd b \<noteq> CHR ''/''"
  shows "os_path_join a b = b \<or> (\<exists>x. os_path_join a b = x @ CHR ''/'' # b)"
proof (cases "a = []")
  case True
  then show ?thesis using assms by (simp add: os_path_join_def)
next
  case False
  show ?thesis
  proof (cases "last a = CHR ''/''")
    case True
    have "a = butlast a @ [last a]" using False by simp
    then have "a @ b = butlast a @ CHR ''/'' # b" using True
      by (metis append_Cons append_Nil append_assoc)
    then show ?thesis using assms True False by (auto simp: os_path_join_def)
  next
    case False
    then show ?thesis using assms \<open>a \<noteq> []\<close> by (auto simp: os_path_join_def)
  qed
qed

lemma takeWhile_no_slash:
  "CHR ''/'' \<notin> set b \<Longrightarrow> takeWhile (\<lambda>c. c \<noteq> CHR ''/'') (rev b) = rev b"
  by (rule takeWhile_eq_all_conv[THEN iffD2]) auto

lemma basename_plain: "CHR ''/'' \<notin> set b \<Longrightarrow> os_path_basename b = b"
  by (simp add: os_path_basename_def takeWhile_no_slash)

lemma basename_after_slash:
  assumes "CHR ''/'' \<notin> set b"
  shows "os_path_basename (x @ CHR ''/'' # b) = b"
proof -
  have "rev (x @ CHR ''/'' # b) = rev b @ CHR ''/'' # rev x" by simp
  moreover have "takeWhile (\<lambda>c. c \<noteq> CHR ''/'') (rev b @ CHR ''/'' # rev x)
      = takeWhile (\<lambda>c. c \<noteq> CHR ''/'') (rev b)"
    by (rule takeWhile_tail) simp
  ultimately show ?thesis
    unfolding os_path_basename_def using takeWhile_no_slash[OF assms]
    by (simp only: rev_rev_ident)
qed

lemma basename_join:
  assumes "b \<noteq> []" "CHR ''/'' \<notin> set b"
  shows "os_path_basename (os_path_join a b) = b"
proof -
  have "hd b \<noteq> CHR ''/''" using assms by (cases b) auto
  then show ?thesis
    using join_cases[OF assms(1), of a] assms(2)
    by (auto simp: basename_plain basename_after_slash)
qed

lemma replace_Nil: "old \<noteq> [] \<Longrightarrow> replace [] old new = []"
  by (subst replace.simps) simp

lemma replace_no_match:
  "old \<noteq> [] \<Longrightarrow> take (length old) (c # s) \<noteq> old \<Longrightarrow>
   replace (c # s) old new = c # replace s old new"
  by (subst replace.simps) simp

lemma replace_match:
  "old \<noteq> [] \<Longrightarrow> replace (old @ s) old new = new @ replace s old new"
  by (subst replace.simps) simp

lemma replace_across_slash:
  assumes "old \<noteq> []" "CHR ''/'' \<notin> set old"
  shows "replace (p @ CHR ''/'' # s) old new = replace p old new @ CHR ''/'' # replace s old new"
  using assms
proof (induction p old new rule: replace.induct)
  case (1 p old new)
  show ?case
  proof (cases "p = []")
    case True
    have "take (length old) (CHR ''/'' # s) \<noteq> old"
      using 1(3,4) by (cases old) auto
    then show ?thesis using True 1(3) by (simp add: replace_no_match replace_Nil)
  next
    case False
    show ?thesis
    proof (cases "take (length old) p = old")
      case True
      then have "length (take (length old) p) = length old" by simp
      then have len: "length old \<le> length p" by simp
      have p: "p = old @ drop (length old) p" using True by (metis append_take_drop_id)
      have "replace (p @ CHR ''/'' # s) old new
            = replace (old @ (drop (length old) p @ CHR ''/'' # s)) old new"
        using p by (metis append_assoc)
      also have "\<dots> = new @ replace (drop (length old) p @ CHR ''/'' # s) old new"
        using 1(3) by (rule replace_match)
      also have "\<dots> = new @ replace (drop (length old) p) old new @ CHR ''/'' # replace s old new"
        using 1(1)[OF 1(3) False True 1(3,4)] by simp
      finally have a: "replace (p @ CHR ''/'' # s) old new
          = (new @ replace (drop (length old) p) old new) @ CHR ''/'' # replace s old new"
        by simp
      have "replace (old @ drop (length old) p) old new
          = new @ replace (drop (length old) p) old new"
        using 1(3) by (rule replace_match)
      then have "new @ replace (drop (length old) p) old new = replace p old new"
        using p by simp
      then show ?thesis using a by simp
    next
      case nomatch: False
      obtain c p' where cp: "p = c # p'" using False by (cases p) auto
      have "take (length old) (p @ CHR ''/'' # s) \<noteq> old"
      proof (cases "length old \<le> length p")
        case True
        then show ?thesis using nomatch by simp
      next
        case False
        then have "CHR ''/'' \<in> set (take (length old) (p @ CHR ''/'' # s))"
          by (cases "length old - length p") auto
        then show ?thesis using 1(4) by metis
      qed
      then have "replace (p @ CHR ''/'' # s) old new = c # replace (p' @ CHR ''/'' # s) old new"
        using 1(3) cp by (simp add: replace_no_match)
      moreover have "replace p old new = c # replace p' old new"
        using nomatch 1(3) cp by (simp add: replace_no_match)
      moreover have "replace (p' @ CHR ''/'' # s) old new
          = replace p' old new @ CHR ''/'' # replace s old new"
        using 1(2)[OF 1(3) False nomatch 1(3,4)] cp by simp
      ultimately show ?thesis by simp
    qed
  qed
qed

lemma replace_suffix_only:
  assumes "old \<noteq> []" "hd old \<notin> set s"
  shows "replace (s @ old) old new = s @ new"
  using assms
proof (induction s)
  case Nil
  then show ?case using replace_match[of old "[]" new] by (simp add: replace_Nil)
next
  case (Cons c s)
  have "take (length old) (c # s @ old) \<noteq> old"
    using Cons(2,3) by (cases old) auto
  then show ?case using Cons by (simp add: replace_no_match)
qed


lemma is_digit_not_special:
  "\<not> is_digit CHR ''/''" "\<not> is_digit CHR ''.''" "\<not> is_digit CHR ''_''"
  "\<not> is_digit (CHR ''\<newline>'')" "\<not> is_digit CHR '' ''" "\<not> is_digit CHR ''(''"
  by (simp_all add: is_digit_def)

lemma format_zero_free:
  assumes "0 \<le> i" "\<not> is_digit c"
  shows "c \<notin> set (format_zero i w)"
  using assms format_zero_digits by blast

text \<open>The file name of a generated unit, and the name of its object file.\<close>

lemma source_file_path_eq:
  "get_source_file_path opts i prefix =
     os_path_join (get_src_directory opts)
       (prefix @ ''_'' @ format_zero i (get_src_name_padding opts) @ ''.cpp'')"
  by (simp add: get_source_file_path_def Let_def)

lemma replace_unit_name:
  assumes "0 \<le> i" "CHR ''.'' \<notin> set prefix"
  shows "replace (prefix @ ''_'' @ format_zero i w @ ''.cpp'') ''.cpp'' ''.o''
         = prefix @ ''_'' @ format_zero i w @ ''.o''"
proof -
  have "hd ''.cpp'' \<notin> set (prefix @ ''_'' @ format_zero i w)"
    using assms format_zero_free[OF assms(1) is_digit_not_special(2), of w] by simp
  then have "replace ((prefix @ ''_'' @ format_zero i w) @ ''.cpp'') ''.cpp'' ''.o''
      = (prefix @ ''_'' @ format_zero i w) @ ''.o''"
    by (intro replace_suffix_only) simp_all
  then show ?thesis by simp
qed

lemma basename_replace_join:
  assumes "b \<noteq> []" "CHR ''/'' \<notin> set b" "CHR ''/'' \<notin> set (replace b old new)"
    "old \<noteq> []" "CHR ''/'' \<notin> set old"
  shows "os_path_basename (replace (os_path_join a b) old new) = replace b old new"
proof -
  have "hd b \<noteq> CHR ''/''" using assms(1,2) by (cases b) auto
  then consider "os_path_join a b = b" | x where "os_path_join a b = x @ CHR ''/'' # b"
    using join_cases[OF assms(1), of a] by blast
  then show ?thesis
  proof cases
    case 1
    then show ?thesis using assms(3) by (simp add: basename_plain)
  next
    case 2
    then show ?thesis
      using assms(3) by (simp add: replace_across_slash[OF assms(4,5)] basename_after_slash)
  qed
qed

lemma obj_of_source:
  assumes "0 \<le> i" "CHR ''.'' \<notin> set prefix" "CHR ''/'' \<notin> set prefix"
  shows "get_obj_file_path opts (get_source_file_path opts i prefix) =
     os_path_join (get_obj_directory opts)
       (prefix @ ''_'' @ format_zero i (get_src_name_padding opts) @ ''.o'')"
proof -
  define w where "w = get_src_name_padding opts"
  define b where "b = prefix @ ''_'' @ format_zero i w @ ''.cpp''"
  have nd: "CHR ''/'' \<notin> set (format_zero i w)"
    using format_zero_free[OF assms(1) is_digit_not_special(1)] .
  have r: "replace b ''.cpp'' ''.o'' = prefix @ ''_'' @ format_zero i w @ ''.o''"
    unfolding b_def using assms(1,2) by (rule replace_unit_name)
  have "os_path_basename (replace (os_path_join (get_src_directory opts) b) ''.cpp'' ''.o'')
      = replace b ''.cpp'' ''.o''"
    by (rule basename_replace_join) (use assms(3) nd in \<open>simp_all add: r, simp_all add: b_def\<close>)
  then show ?thesis
    unfolding r unfolding b_def w_def
    by (simp add: get_obj_file_path_def Let_def source_file_path_eq)
qed


section \<open>The paths that the generators return\<close>

lemma lib_name_padding_ok:
  "get_num_libraries_to_build opts = Inr n \<Longrightarrow>
   get_lib_name_padding opts = Inr (length (str n))"
  by (simp add: get_lib_name_padding_def)

lemma obj_source_loop_paths:
  "fst (obj_source_loop opts is sources fs) =
     sources @ map (\<lambda>i. get_source_file_path opts i ''src'') is"
  by (induction "is" arbitrary: sources fs) (simp_all add: generate_obj_source_file_def Let_def)

lemma generate_obj_source_files_paths:
  "fst (generate_obj_source_files opts fs) =
     map (\<lambda>i. get_source_file_path opts i ''src'') (range 0 (count_of_leaf_source_files opts))"
  by (simp add: generate_obj_source_files_def Let_def obj_source_loop_paths)

lemma generate_lib_source_file_path:
  "get_num_libraries_to_build opts = Inr n \<Longrightarrow>
   fst (generate_lib_source_file opts j fs) = Inr (get_source_file_path opts j ''lib'')"
  by (simp add: generate_lib_source_file_def lib_name_padding_ok Let_def split: prod.splits)

lemma lib_source_loop_paths:
  "get_num_libraries_to_build opts = Inr n \<Longrightarrow>
   fst (lib_source_loop opts is sources fs) =
     Inr (sources @ map (\<lambda>i. get_source_file_path opts i ''lib'') is)"
proof (induction "is" arbitrary: sources fs)
  case Nil
  then show ?case by simp
next
  case (Cons i rest)
  obtain fs' where g: "generate_lib_source_file opts i fs = (Inr (get_source_file_path opts i ''lib''), fs')"
    using generate_lib_source_file_path[OF Cons(2), of i fs]
    by (cases "generate_lib_source_file opts i fs") simp
  show ?case using Cons by (simp add: g)
qed

lemma generate_lib_source_files_paths:
  "get_num_libraries_to_build opts = Inr n \<Longrightarrow>
   fst (generate_lib_source_files opts fs) =
     Inr (map (\<lambda>i. get_source_file_path opts i ''lib'') (range 0 n))"
  by (simp add: generate_lib_source_files_def lib_name_padding_ok lib_source_loop_paths)

lemma generate_main_source_file_path:
  "get_num_libraries_to_build opts = Inr n \<Longrightarrow>
   fst (generate_main_source_file opts fs) = Inr (get_source_file_path opts 0 ''main'')"
  by (simp add: generate_main_source_file_def lib_name_padding_ok Let_def)

lemma generate_source_files_paths:
  assumes "get_num_libraries_to_build opts = Inr n"
  shows "fst (generate_source_files opts fs) =
     Inr (map (\<lambda>i. get_source_file_path opts i ''src'') (range 0 (count_of_leaf_source_files opts)),
          map (\<lambda>i. get_source_file_path opts i ''lib'') (range 0 n),
          [get_source_file_path opts 0 ''main''])"
proof -
  obtain fs1 where a: "generate_obj_source_files opts fs =
      (map (\<lambda>i. get_source_file_path opts i ''src'') (range 0 (count_of_leaf_source_files opts)), fs1)"
    using generate_obj_source_files_paths[of opts fs]
    by (cases "generate_obj_source_files opts fs") simp
  obtain fs2 where b: "generate_lib_source_files opts fs1 =
      (Inr (map (\<lambda>i. get_source_file_path opts i ''lib'') (range 0 n)), fs2)"
    using generate_lib_source_files_paths[OF assms, of fs1]
    by (cases "generate_lib_source_files opts fs1") simp
  obtain fs3 where c: "generate_main_source_file opts fs2 =
      (Inr (get_source_file_path opts 0 ''main''), fs3)"
    using generate_main_source_file_path[OF assms, of fs2]
    by (cases "generate_main_source_file opts fs2") simp
  show ?thesis
    by (simp add: generate_source_files_def a b generate_main_source_files_def c)
qed


section \<open>Ranges, slices and indices\<close>



lemma lib_range_bounds:
  assumes "1 \<le> library_object_count opts" "0 \<le> j"
  shows "0 \<le> fst (get_lib_src_indices opts j)"
    and "snd (get_lib_src_indices opts j) \<le> count_of_leaf_source_files opts"
    and "0 \<le> snd (get_lib_src_indices opts j) \<or> count_of_leaf_source_files opts \<le> 0"
proof -
  have "0 \<le> j * library_object_count opts" using assms by simp
  then show "0 \<le> fst (get_lib_src_indices opts j)"
    and "0 \<le> snd (get_lib_src_indices opts j) \<or> count_of_leaf_source_files opts \<le> 0"
    using assms(1) by (auto simp: lib_src_indices_eq algebra_simps min_def)
  show "snd (get_lib_src_indices opts j) \<le> count_of_leaf_source_files opts"
    by (simp add: lib_src_indices_eq)
qed


lemma nth_range: "k < nat (b - a) \<Longrightarrow> range a b ! k = a + int k"
  by (simp add: range_def)


lemma index_map_range:
  assumes "0 \<le> i" "i < n"
  shows "index (map f (range 0 n)) i = Inr (f i)"
proof -
  have "range 0 n ! nat i = 0 + int (nat i)" using assms by (intro nth_range) simp
  then show ?thesis using assms by (simp add: index_def length_range)
qed

lemma lib_file_path_ok:
  "get_num_libraries_to_build opts = Inr n \<Longrightarrow>
   get_lib_file_path opts i =
     Inr (os_path_join (get_lib_directory opts) (''lib_'' @ format_zero i (length (str n)) @ ''.a''))"
  by (simp add: get_lib_file_path_def get_lib_name_padding_def Let_def)


section \<open>Every partition is non-empty\<close>





section \<open>Where the root unit and the library units are written\<close>

lemma str_nat_values:
  "str_nat 0 = ''0''" "str_nat 1 = ''1''" "str_nat 2 = ''2''" "str_nat 3 = ''3''"
  "str_nat 4 = ''4''" "str_nat 5 = ''5''" "str_nat 10 = ''10''" "str_nat 1000 = ''1000''"
  "str_nat (Suc 0) = ''1''"
  by code_simp+

lemma format_zero_0_str:
  "format_zero 0 (length (str i)) = replicate (length (str i)) CHR ''0''"
  by (rule format_zero_0) (simp add: str_def str_nat_nonempty)

lemma generate_main_source_file_shape:
  assumes "get_num_libraries_to_build opts = Inr n"
  shows "\<exists>contents. generate_main_source_file opts fs =
      (Inr (get_source_file_path opts 0 ''main''),
       write_file (get_source_file_path opts 0 ''main'') contents fs)"
  using assms
  by (simp add: generate_main_source_file_def lib_name_padding_ok Let_def)
    (rule exI, rule refl)

lemma generate_lib_source_file_shape:
  assumes "get_num_libraries_to_build opts = Inr n"
  shows "\<exists>contents. generate_lib_source_file opts j fs =
      (Inr (get_source_file_path opts j ''lib''),
       write_file (get_source_file_path opts j ''lib'') contents fs)"
  using assms
  by (simp add: generate_lib_source_file_def lib_name_padding_ok Let_def split_def)
    (rule exI, rule refl)

text \<open>
  Claim C3, as amended. For every configuration whose library count is computed (the
  capacity is not zero and the float quotient is in range), the root unit is written to
  \<^verbatim>\<open><outputRoot>/src/main_<zeros>.cpp\<close>, where the index 0 is padded to the width of
  the leaf count, \<^verbatim>\<open>len(str(leafCount))\<close> zeros: the path
  helper pads every source file name to the leaf width, whatever the prefix.
\<close>

theorem root_unit_path:
  assumes "get_num_libraries_to_build opts = Inr n"
  shows "\<exists>contents. generate_main_source_file opts fs =
      (Inr (os_path_join (os_path_join (output_directory opts) ''src'')
             (''main_''
              @ replicate (length (str (count_of_leaf_source_files opts))) CHR ''0''
              @ ''.cpp'')),
       write_file
         (os_path_join (os_path_join (output_directory opts) ''src'')
             (''main_''
              @ replicate (length (str (count_of_leaf_source_files opts))) CHR ''0''
              @ ''.cpp''))
         contents fs)"
proof -
  have "get_source_file_path opts 0 ''main'' =
      os_path_join (os_path_join (output_directory opts) ''src'')
             (''main_''
              @ replicate (length (str (count_of_leaf_source_files opts))) CHR ''0''
              @ ''.cpp'')"
    by (simp add: source_file_path_eq get_src_directory_def get_build_directory_def
        get_src_name_padding_def format_zero_0_str)
  then show ?thesis
    using generate_main_source_file_shape[OF assms, of fs] by simp
qed

theorem root_unit_path_witness:
  "get_num_libraries_to_build example_10_1000 = Inr 1
   \<and> fst (generate_main_source_file example_10_1000 empty_filesystem)
       = Inr ''build/src/main_00.cpp''"
  using root_unit_path [of example_10_1000 1 empty_filesystem]
  by (simp add: num_libraries_examples)
     (auto simp: example_10_1000_def str_def str_nat_values os_path_join_def)

text \<open>
  The claim as stated (padding to the width of the library count) fails for 10 leaves
  and a capacity of 1000, the defaults of the command line: there is one library, so
  the library width is 1, but the root unit is written to \<^verbatim>\<open>main_00.cpp\<close>, and
  nothing is written to \<^verbatim>\<open>main_0.cpp\<close>.
\<close>

theorem root_unit_path_counterexample:
  "fst (generate_main_source_file example_10_1000 empty_filesystem)
     = Inr ''build/src/main_00.cpp''
   \<and> spec_root_unit_path example_10_1000 = Inr ''build/src/main_0.cpp''
   \<and> files (snd (generate_main_source_file example_10_1000 empty_filesystem))
       ''build/src/main_0.cpp'' = None"
  by (simp add: generate_main_source_file_def spec_root_unit_path_def
      get_lib_name_padding_def num_libraries_examples Let_def)
     (simp add: example_10_1000_def empty_filesystem_def
      get_source_file_path_def get_src_directory_def get_build_directory_def
      get_src_name_padding_def os_path_join_def format_zero_def write_file_def
      str_def str_nat_values Let_def)

text \<open>
  Claim C4, as amended. For every configuration whose library count is computed (the
  capacity is not zero and the float quotient is in range) and every index \<open>j \<ge> 0\<close>,
  the library unit \<open>j\<close> is written to
  \<^verbatim>\<open><outputRoot>/src/lib_<padded j>.cpp\<close> with \<open>j\<close> padded by zeros to the width of
  the leaf count, \<^verbatim>\<open>len(str(leafCount))\<close>.
\<close>

theorem lib_unit_path:
  assumes "get_num_libraries_to_build opts = Inr n" and "0 \<le> j"
  shows "\<exists>contents. generate_lib_source_file opts j fs =
      (Inr (os_path_join (os_path_join (output_directory opts) ''src'')
             (''lib_''
              @ replicate (length (str (count_of_leaf_source_files opts)) - length (str j)) CHR ''0''
              @ str j @ ''.cpp'')),
       write_file
         (os_path_join (os_path_join (output_directory opts) ''src'')
             (''lib_''
              @ replicate (length (str (count_of_leaf_source_files opts)) - length (str j)) CHR ''0''
              @ str j @ ''.cpp''))
         contents fs)"
proof -
  have "get_source_file_path opts j ''lib'' =
      os_path_join (os_path_join (output_directory opts) ''src'')
             (''lib_''
              @ replicate (length (str (count_of_leaf_source_files opts)) - length (str j)) CHR ''0''
              @ str j @ ''.cpp'')"
    using assms(2)
    by (simp add: source_file_path_eq get_src_directory_def get_build_directory_def
        get_src_name_padding_def format_zero_nonneg str_nonneg)
  then show ?thesis
    using generate_lib_source_file_shape[OF assms(1), of j fs] by simp
qed

theorem lib_unit_path_witness:
  "get_num_libraries_to_build example_10_5 = Inr 2 \<and> (0::int) \<le> 1
   \<and> fst (generate_lib_source_file example_10_5 1 empty_filesystem)
       = Inr ''build/src/lib_01.cpp''"
  using lib_unit_path [of example_10_5 2 1 empty_filesystem]
  by (simp add: num_libraries_examples)
     (auto simp: example_10_5_def str_def str_nat_values os_path_join_def)

text \<open>
  The claim as stated (padding to the width of the library count) fails for 10 leaves
  and a capacity of 5: there are two libraries, so the library width is 1, but library
  unit 1 is written to \<^verbatim>\<open>lib_01.cpp\<close>, and nothing is written to \<^verbatim>\<open>lib_1.cpp\<close>.
\<close>

theorem lib_unit_path_counterexample:
  "fst (generate_lib_source_file example_10_5 1 empty_filesystem)
     = Inr ''build/src/lib_01.cpp''
   \<and> spec_lib_unit_path example_10_5 1 = Inr ''build/src/lib_1.cpp''
   \<and> files (snd (generate_lib_source_file example_10_5 1 empty_filesystem))
       ''build/src/lib_1.cpp'' = None"
  by (simp add: generate_lib_source_file_def spec_lib_unit_path_def
      get_lib_name_padding_def num_libraries_examples Let_def)
     (simp add: example_10_5_def empty_filesystem_def
      get_source_file_path_def get_src_directory_def get_build_directory_def
      get_src_name_padding_def os_path_join_def format_zero_def write_file_def
      get_lib_src_indices_def str_def str_nat_values Let_def)


section \<open>What the leaf loop leaves on the file system\<close>

lemma overlay_overlay:
  "overlay D2 M2 (overlay D1 M1 fs) = overlay (D1 \<union> D2) (M1 ++ M2) fs"
  by (simp add: overlay_def Un_assoc)

lemma overlay_none: "overlay {} Map.empty fs = fs"
  by (simp add: overlay_def)

lemma write_file_overlay: "write_file p c fs = overlay {} [p \<mapsto> c] fs"
  by (simp add: write_file_def overlay_def)

lemma makedirs_overlay: "makedirs p fs = overlay {p} Map.empty fs"
  by (simp add: makedirs_def overlay_def)

lemma create_output_dirs_overlay:
  "create_output_dirs opts fs =
     overlay {get_build_directory opts, get_src_directory opts, get_obj_directory opts,
              get_lib_directory opts, get_bin_directory opts} Map.empty fs"
proof -
  have "insert (get_bin_directory opts)
          (insert (get_lib_directory opts)
            (insert (get_obj_directory opts)
              (insert (get_src_directory opts)
                (insert (get_build_directory opts) (dirs fs)))))
        = dirs fs \<union> {get_build_directory opts, get_src_directory opts, get_obj_directory opts,
              get_lib_directory opts, get_bin_directory opts}"
    by auto
  then show ?thesis by (simp add: create_output_dirs_def makedirs_def overlay_def)
qed

lemma obj_source_loop_overlay:
  "snd (obj_source_loop opts is sources fs) = overlay {} (leaf_files opts is) fs"
proof (induction "is" arbitrary: sources fs)
  case Nil
  show ?case by (simp add: overlay_none)
next
  case (Cons i rest)
  show ?case
    by (simp add: generate_obj_source_file_def Let_def Cons write_file_overlay overlay_overlay)
qed

lemma generate_obj_source_files_eq:
  "generate_obj_source_files opts fs =
     (map (\<lambda>i. get_source_file_path opts i ''src'') (range 0 (count_of_leaf_source_files opts)),
      overlay {} (leaf_files opts (range 0 (count_of_leaf_source_files opts))) fs)"
  using generate_obj_source_files_paths[of opts fs]
    obj_source_loop_overlay[of opts "range 0 (count_of_leaf_source_files opts)" "[]" fs]
  by (simp add: generate_obj_source_files_def Let_def prod_eq_iff)

lemma dom_leaf_files:
  "dom (leaf_files opts is) = (\<lambda>i. get_source_file_path opts i ''src'') ` set is"
  by (induction "is") auto

lemma leaf_files_outside:
  "\<forall>i\<in>set is. p \<noteq> get_source_file_path opts i ''src'' \<Longrightarrow> leaf_files opts is p = None"
  using dom_leaf_files[of opts "is"] by (auto simp: domIff)

lemma os_path_join_inj:
  assumes "b \<noteq> []" "hd b \<noteq> CHR ''/''" "b' \<noteq> []" "hd b' \<noteq> CHR ''/''"
    "os_path_join a b = os_path_join a b'"
  shows "b = b'"
  using assms by (auto simp: os_path_join_def split: if_splits)

lemma unit_name_head:
  "prefix \<noteq> [] \<Longrightarrow> hd (prefix @ ''_'' @ d @ ''.cpp'') = hd prefix"
  by (cases prefix) simp_all

lemma unit_name_nonempty: "prefix @ ''_'' @ d @ ''.cpp'' \<noteq> []"
  by simp

lemma source_file_path_inj:
  assumes "0 \<le> i" "0 \<le> j" "prefix \<noteq> []" "hd prefix \<noteq> CHR ''/''"
    "get_source_file_path opts i prefix = get_source_file_path opts j prefix"
  shows "i = j"
proof -
  define w where "w = get_src_name_padding opts"
  define a where "a = prefix @ ''_'' @ format_zero i w @ ''.cpp''"
  define b where "b = prefix @ ''_'' @ format_zero j w @ ''.cpp''"
  have e: "os_path_join (get_src_directory opts) a = os_path_join (get_src_directory opts) b"
    using assms(5) unfolding source_file_path_eq w_def a_def b_def .
  have ha: "hd a \<noteq> CHR ''/''" unfolding a_def unit_name_head[OF assms(3)] by (rule assms(4))
  have hb: "hd b \<noteq> CHR ''/''" unfolding b_def unit_name_head[OF assms(3)] by (rule assms(4))
  have na: "a \<noteq> []" unfolding a_def by (rule unit_name_nonempty)
  have nb: "b \<noteq> []" unfolding b_def by (rule unit_name_nonempty)
  have "a = b" using na ha nb hb e by (rule os_path_join_inj)
  then have "format_zero i w = format_zero j w" unfolding a_def b_def by simp
  then show ?thesis using assms(1,2) by (rule format_zero_inj[rotated 2])
qed

lemma leaf_files_inside:
  assumes "k \<in> set is" "\<forall>i\<in>set is. 0 \<le> i"
  shows "leaf_files opts is (get_source_file_path opts k ''src'') =
     Some (obj_contents_head @ format_zero k (get_src_name_padding opts) @ obj_contents_tail)"
  using assms
proof (induction "is")
  case Nil
  then show ?case by simp
next
  case (Cons i rest)
  show ?case
  proof (cases "k \<in> set rest")
    case True
    then show ?thesis using Cons by (simp add: map_add_Some_iff)
  next
    case False
    then have ki: "k = i" using Cons(2) by simp
    have "leaf_files opts rest (get_source_file_path opts k ''src'') = None"
    proof (rule leaf_files_outside, rule ballI)
      fix i' assume i': "i' \<in> set rest"
      show "get_source_file_path opts k ''src'' \<noteq> get_source_file_path opts i' ''src''"
      proof
        assume "get_source_file_path opts k ''src'' = get_source_file_path opts i' ''src''"
        then have "k = i'"
          using Cons(3) i' ki by (intro source_file_path_inj[of k i' "''src''" opts]) simp_all
        then show False using False i' by simp
      qed
    qed
    then show ?thesis using ki by (simp add: map_add_def)
  qed
qed


section \<open>A capacity of zero\<close>

lemma source_paths_differ_by_prefix:
  assumes "prefix \<noteq> []" "prefix' \<noteq> []" "hd prefix \<noteq> CHR ''/''" "hd prefix' \<noteq> CHR ''/''"
    "hd prefix \<noteq> hd prefix'"
  shows "get_source_file_path opts i prefix \<noteq> get_source_file_path opts j prefix'"
proof
  define w where "w = get_src_name_padding opts"
  define a where "a = prefix @ ''_'' @ format_zero i w @ ''.cpp''"
  define b where "b = prefix' @ ''_'' @ format_zero j w @ ''.cpp''"
  assume "get_source_file_path opts i prefix = get_source_file_path opts j prefix'"
  then have e: "os_path_join (get_src_directory opts) a = os_path_join (get_src_directory opts) b"
    unfolding source_file_path_eq w_def a_def b_def .
  have ha: "hd a = hd prefix" unfolding a_def by (rule unit_name_head[OF assms(1)])
  have hb: "hd b = hd prefix'" unfolding b_def by (rule unit_name_head[OF assms(2)])
  have na: "a \<noteq> []" unfolding a_def by (rule unit_name_nonempty)
  have nb: "b \<noteq> []" unfolding b_def by (rule unit_name_nonempty)
  have "a = b"
    using na _ nb _ e by (rule os_path_join_inj) (simp_all only: ha hb assms(3,4) not_False_eq_True)
  then have "hd a = hd b" by simp
  then show False using assms(5) unfolding ha hb by simp
qed

lemma basename_source_file_path:
  assumes "0 \<le> i" "prefix \<noteq> []" "CHR ''/'' \<notin> set prefix"
  shows "os_path_basename (get_source_file_path opts i prefix)
     = prefix @ ''_'' @ format_zero i (get_src_name_padding opts) @ ''.cpp''"
  unfolding source_file_path_eq
  using assms format_zero_free[OF assms(1) is_digit_not_special(1)]
  by (intro basename_join) simp_all

lemma basename_ninja_file_path: "os_path_basename (get_ninja_file_path opts) = ''build.ninja''"
  unfolding get_ninja_file_path_def by (intro basename_join) simp_all

lemma leaf_path_not_ninja:
  assumes "0 \<le> i"
  shows "get_source_file_path opts i ''src'' \<noteq> get_ninja_file_path opts"
proof
  assume "get_source_file_path opts i ''src'' = get_ninja_file_path opts"
  then have "os_path_basename (get_source_file_path opts i ''src'')
      = os_path_basename (get_ninja_file_path opts)" by simp
  then show False
    using basename_source_file_path[OF assms, of "''src''" opts]
    by (simp add: basename_ninja_file_path)
qed

lemma generate_source_files_fails:
  assumes "get_num_libraries_to_build opts = Inl e"
  shows "generate_source_files opts fs =
     (Inl e, overlay {} (leaf_files opts (range 0 (count_of_leaf_source_files opts))) fs)"
  using assms
  by (simp add: generate_source_files_def generate_obj_source_files_eq
      generate_lib_source_files_def)

lemma main_generate_fails:
  assumes "get_num_libraries_to_build opts = Inl e"
  shows "main_generate opts fs =
     (Inl e,
      overlay {get_build_directory opts, get_src_directory opts, get_obj_directory opts,
               get_lib_directory opts, get_bin_directory opts}
        (leaf_files opts (range 0 (count_of_leaf_source_files opts))) fs)"
  by (simp add: main_generate_def Let_def generate_source_files_fails[OF assms]
      create_output_dirs_overlay overlay_overlay)

lemma main_generate_zero_capacity:
  assumes "library_object_count opts = 0"
  shows "main_generate opts fs =
     (Inl ZeroDivisionError,
      overlay {get_build_directory opts, get_src_directory opts, get_obj_directory opts,
               get_lib_directory opts, get_bin_directory opts}
        (leaf_files opts (range 0 (count_of_leaf_source_files opts))) fs)"
  using assms by (intro main_generate_fails num_libraries_zero_capacity)

text \<open>
  Claim C2, as amended. When the capacity is 0, the run fails with a division by zero
  after the output directories have been created and every leaf unit has been written
  (leaf \<open>i\<close>, for \<open>0 \<le> i < leafCount\<close>, holds its generated text); no other file is
  touched: in particular no library unit, no root unit and no build plan is written.
\<close>

theorem zero_capacity_fails:
  assumes "library_object_count opts = 0"
  shows "fst (main_generate opts fs) = Inl ZeroDivisionError
    \<and> dirs (snd (main_generate opts fs)) =
        dirs fs \<union> {get_build_directory opts, get_src_directory opts, get_obj_directory opts,
                    get_lib_directory opts, get_bin_directory opts}
    \<and> (\<forall>i. 0 \<le> i \<and> i < count_of_leaf_source_files opts \<longrightarrow>
          files (snd (main_generate opts fs)) (get_source_file_path opts i ''src'') =
            Some (obj_contents_head @ format_zero i (get_src_name_padding opts)
                  @ obj_contents_tail))
    \<and> (\<forall>p. (\<forall>i. 0 \<le> i \<and> i < count_of_leaf_source_files opts \<longrightarrow>
                 p \<noteq> get_source_file_path opts i ''src'') \<longrightarrow>
          files (snd (main_generate opts fs)) p = files fs p)
    \<and> (\<forall>j. files (snd (main_generate opts fs)) (get_source_file_path opts j ''lib'')
            = files fs (get_source_file_path opts j ''lib''))
    \<and> files (snd (main_generate opts fs)) (get_source_file_path opts 0 ''main'')
        = files fs (get_source_file_path opts 0 ''main'')
    \<and> files (snd (main_generate opts fs)) (get_ninja_file_path opts)
        = files fs (get_ninja_file_path opts)"
proof -
  define L where "L = count_of_leaf_source_files opts"
  define M where "M = leaf_files opts (range 0 L)"
  have run: "main_generate opts fs =
     (Inl ZeroDivisionError,
      overlay {get_build_directory opts, get_src_directory opts, get_obj_directory opts,
               get_lib_directory opts, get_bin_directory opts} M fs)"
    unfolding M_def L_def using assms by (rule main_generate_zero_capacity)
  have inside: "M (get_source_file_path opts i ''src'') =
      Some (obj_contents_head @ format_zero i (get_src_name_padding opts) @ obj_contents_tail)"
    if "0 \<le> i \<and> i < L" for i
    unfolding M_def using that by (intro leaf_files_inside) (simp_all add: set_range)
  have outside: "M p = None"
    if "\<forall>i. 0 \<le> i \<and> i < L \<longrightarrow> p \<noteq> get_source_file_path opts i ''src''" for p
    unfolding M_def using that by (intro leaf_files_outside) (simp add: set_range)
  have lib: "M (get_source_file_path opts j ''lib'') = None" for j
    using source_paths_differ_by_prefix[of "''lib''" "''src''" opts j]
    by (intro outside) simp
  have main: "M (get_source_file_path opts 0 ''main'') = None"
    using source_paths_differ_by_prefix[of "''main''" "''src''" opts 0]
    by (intro outside) simp
  have ninja: "M (get_ninja_file_path opts) = None"
    using leaf_path_not_ninja[of _ opts] by (intro outside) metis
  show ?thesis
    unfolding L_def[symmetric] run
    using inside outside lib main ninja
    by (simp add: overlay_def map_add_def)
qed

theorem zero_capacity_fails_witness:
  "library_object_count example_5_0 = 0
   \<and> fst (main_generate example_5_0 empty_filesystem) = Inl ZeroDivisionError
   \<and> files (snd (main_generate example_5_0 empty_filesystem)) ''build/build.ninja'' = None
   \<and> files (snd (main_generate example_5_0 empty_filesystem)) ''build/src/main_0.cpp'' = None"
  using zero_capacity_fails [of example_5_0 empty_filesystem]
  by (simp add: example_5_0_def empty_filesystem_def get_ninja_file_path_def
      get_build_directory_def os_path_join_def get_source_file_path_def get_src_directory_def
      get_src_name_padding_def format_zero_def str_def str_nat_values Let_def)

text \<open>
  The claim as stated (the failure comes before any file is written, and no leaf file is
  created) fails for 5 leaves and a capacity of 0: the run fails with a division by
  zero, but by then the leaf units \<^verbatim>\<open>src_0.cpp\<close> to \<^verbatim>\<open>src_4.cpp\<close> exist. The leaf
  loop runs first and never divides; the library count is first computed after it.
\<close>

theorem zero_capacity_counterexample:
  "count_of_leaf_source_files example_5_0 = 5
   \<and> library_object_count example_5_0 = 0
   \<and> fst (main_generate example_5_0 empty_filesystem) = Inl ZeroDivisionError
   \<and> files (snd (main_generate example_5_0 empty_filesystem)) ''build/src/src_0.cpp'' \<noteq> None
   \<and> files (snd (main_generate example_5_0 empty_filesystem)) ''build/src/src_4.cpp'' \<noteq> None"
proof -
  have p: "get_source_file_path example_5_0 0 ''src'' = ''build/src/src_0.cpp''"
    "get_source_file_path example_5_0 4 ''src'' = ''build/src/src_4.cpp''"
    by (simp_all add: example_5_0_def get_source_file_path_def get_src_directory_def
        get_build_directory_def get_src_name_padding_def os_path_join_def format_zero_def
        str_def str_nat_values Let_def)
  have run: "main_generate example_5_0 empty_filesystem =
     (Inl ZeroDivisionError,
      overlay {get_build_directory example_5_0, get_src_directory example_5_0,
               get_obj_directory example_5_0, get_lib_directory example_5_0,
               get_bin_directory example_5_0}
        (leaf_files example_5_0 (range 0 5)) empty_filesystem)"
    using main_generate_zero_capacity[of example_5_0 empty_filesystem]
    by (simp add: example_5_0_def)
  have "leaf_files example_5_0 (range 0 5) (get_source_file_path example_5_0 0 ''src'') \<noteq> None"
    "leaf_files example_5_0 (range 0 5) (get_source_file_path example_5_0 4 ''src'') \<noteq> None"
    using leaf_files_inside[of 0 "range 0 5" example_5_0]
      leaf_files_inside[of 4 "range 0 5" example_5_0]
    by (simp_all add: set_range)
  then show ?thesis
    unfolding run p by (auto simp: overlay_def example_5_0_def map_add_def split: option.splits)
qed


section \<open>The run as a function of the configuration\<close>

lemma generate_lib_source_file_overlay:
  assumes "get_num_libraries_to_build opts = Inr n"
  shows "\<exists>c. \<forall>fs. generate_lib_source_file opts j fs =
      (Inr (get_source_file_path opts j ''lib''),
       overlay {} [get_source_file_path opts j ''lib'' \<mapsto> c] fs)"
  using assms
  by (simp add: generate_lib_source_file_def lib_name_padding_ok Let_def split_def
      write_file_overlay) (rule exI, rule allI, rule refl)

lemma lib_source_loop_overlay:
  assumes "get_num_libraries_to_build opts = Inr n"
  shows "\<exists>M. dom M = (\<lambda>j. get_source_file_path opts j ''lib'') ` set js
     \<and> (\<forall>sources fs. lib_source_loop opts js sources fs =
          (Inr (sources @ map (\<lambda>j. get_source_file_path opts j ''lib'') js),
           overlay {} M fs))"
proof (induction js)
  case Nil
  have "dom (Map.empty :: string \<rightharpoonup> string) = (\<lambda>j. get_source_file_path opts j ''lib'') ` set []"
    by simp
  moreover have "\<forall>sources fs. lib_source_loop opts [] sources fs =
      (Inr (sources @ map (\<lambda>j. get_source_file_path opts j ''lib'') []), overlay {} Map.empty fs)"
    by (simp add: overlay_none)
  ultimately show ?case by blast
next
  case (Cons j rest)
  obtain M where M: "dom M = (\<lambda>j. get_source_file_path opts j ''lib'') ` set rest"
    and loop: "\<And>sources fs. lib_source_loop opts rest sources fs =
          (Inr (sources @ map (\<lambda>j. get_source_file_path opts j ''lib'') rest),
           overlay {} M fs)"
    using Cons by blast
  obtain c where c: "\<And>fs. generate_lib_source_file opts j fs =
      (Inr (get_source_file_path opts j ''lib''),
       overlay {} [get_source_file_path opts j ''lib'' \<mapsto> c] fs)"
    using generate_lib_source_file_overlay[OF assms, of j] by blast
  define M' where "M' = [get_source_file_path opts j ''lib'' \<mapsto> c] ++ M"
  have d: "dom M' = (\<lambda>j. get_source_file_path opts j ''lib'') ` set (j # rest)"
    unfolding M'_def using M by auto
  have "\<forall>sources fs. lib_source_loop opts (j # rest) sources fs =
          (Inr (sources @ map (\<lambda>j. get_source_file_path opts j ''lib'') (j # rest)),
           overlay {} M' fs)"
    by (simp add: c loop overlay_overlay M'_def)
  then show ?case using d by blast
qed

lemma generate_main_source_file_overlay:
  assumes "get_num_libraries_to_build opts = Inr n"
  shows "\<exists>c. \<forall>fs. generate_main_source_file opts fs =
      (Inr (get_source_file_path opts 0 ''main''),
       overlay {} [get_source_file_path opts 0 ''main'' \<mapsto> c] fs)"
  using assms
  by (simp add: generate_main_source_file_def lib_name_padding_ok Let_def
      write_file_overlay) (rule exI, rule allI, rule refl)

lemma generate_source_files_overlay:
  assumes "get_num_libraries_to_build opts = Inr n"
  shows "\<exists>M. dom M =
        (\<lambda>i. get_source_file_path opts i ''src'') ` {0..<count_of_leaf_source_files opts}
        \<union> (\<lambda>j. get_source_file_path opts j ''lib'') ` {0..<n}
        \<union> {get_source_file_path opts 0 ''main''}
     \<and> (\<forall>fs. generate_source_files opts fs =
          (Inr (map (\<lambda>i. get_source_file_path opts i ''src'')
                  (range 0 (count_of_leaf_source_files opts)),
                map (\<lambda>j. get_source_file_path opts j ''lib'') (range 0 n),
                [get_source_file_path opts 0 ''main'']),
           overlay {} M fs))"
proof -
  define L where "L = count_of_leaf_source_files opts"
  obtain Ml where Ml: "dom Ml = (\<lambda>j. get_source_file_path opts j ''lib'') ` set (range 0 n)"
    and loop: "\<And>sources fs. lib_source_loop opts (range 0 n) sources fs =
          (Inr (sources @ map (\<lambda>j. get_source_file_path opts j ''lib'') (range 0 n)),
           overlay {} Ml fs)"
    using lib_source_loop_overlay[OF assms, of "range 0 n"] by blast
  obtain c where c: "\<And>fs. generate_main_source_file opts fs =
      (Inr (get_source_file_path opts 0 ''main''),
       overlay {} [get_source_file_path opts 0 ''main'' \<mapsto> c] fs)"
    using generate_main_source_file_overlay[OF assms] by blast
  define M where "M = leaf_files opts (range 0 L) ++ Ml ++ [get_source_file_path opts 0 ''main'' \<mapsto> c]"
  have libs: "\<And>fs. generate_lib_source_files opts fs =
      (Inr (map (\<lambda>j. get_source_file_path opts j ''lib'') (range 0 n)), overlay {} Ml fs)"
    using assms by (simp add: generate_lib_source_files_def lib_name_padding_ok loop)
  have d: "dom M = (\<lambda>i. get_source_file_path opts i ''src'') ` {0..<L}
        \<union> (\<lambda>j. get_source_file_path opts j ''lib'') ` {0..<n}
        \<union> {get_source_file_path opts 0 ''main''}"
    unfolding M_def by (simp add: dom_leaf_files Ml set_range Un_commute Un_left_commute)
  have "\<forall>fs. generate_source_files opts fs =
          (Inr (map (\<lambda>i. get_source_file_path opts i ''src'') (range 0 L),
                map (\<lambda>j. get_source_file_path opts j ''lib'') (range 0 n),
                [get_source_file_path opts 0 ''main'']),
           overlay {} M fs)"
    by (simp add: generate_source_files_def generate_obj_source_files_eq libs
        generate_main_source_files_def c overlay_overlay M_def L_def)
  then show ?thesis using d unfolding L_def by blast
qed

lemma split_loop_succeeds:
  assumes "get_num_libraries_to_build opts = Inr m" "\<forall>i\<in>set js. 0 \<le> i \<and> i < n"
  shows "\<exists>libraries. split_loop opts obj_src (map f (range 0 n)) js acc = Inr libraries"
  using assms(2)
proof (induction js arbitrary: acc)
  case Nil
  show ?case by simp
next
  case (Cons j rest)
  note m = assms(1)
  have i: "index (map f (range 0 n)) j = Inr (f j)"
    using Cons(2) by (intro index_map_range) simp_all
  have "\<exists>libraries. split_loop opts obj_src (map f (range 0 n)) rest
      (acc @ [(os_path_join (get_lib_directory opts)
                 (''lib_'' @ format_zero j (length (str m)) @ ''.a''),
               slice obj_src (fst (get_lib_src_indices opts j)) (snd (get_lib_src_indices opts j))
               @ [f j])]) = Inr libraries"
    using Cons by simp
  then show ?case
    by (simp add: lib_file_path_ok[OF m] i split_def Let_def)
qed

lemma generate_ninja_file_overlay:
  assumes "get_num_libraries_to_build opts = Inr n"
  shows "\<exists>c. \<forall>fs. generate_ninja_file opts obj_src (map f (range 0 n)) main_src fs =
      (Inr (), overlay {} [get_ninja_file_path opts \<mapsto> c] fs)"
proof -
  obtain libraries where
    "split_loop opts obj_src (map f (range 0 n)) (range 0 n) [] = Inr libraries"
    using split_loop_succeeds[OF assms, of "range 0 n" n obj_src f "[]"]
    by (auto simp: set_range)
  then have "split_object_files_into_libraries opts obj_src (map f (range 0 n)) = Inr libraries"
    by (simp add: split_object_files_into_libraries_def assms)
  then show ?thesis
    by (simp add: generate_ninja_file_def Let_def write_file_overlay)
      (rule exI, rule allI, rule refl)
qed

lemma main_generate_overlay:
  assumes "get_num_libraries_to_build opts = Inr n"
  shows "\<exists>M. dom M =
        (\<lambda>i. get_source_file_path opts i ''src'') ` {0..<count_of_leaf_source_files opts}
        \<union> (\<lambda>j. get_source_file_path opts j ''lib'') ` {0..<n}
        \<union> {get_source_file_path opts 0 ''main'', get_ninja_file_path opts}
     \<and> (\<forall>fs. main_generate opts fs =
          (Inr (),
           overlay {get_build_directory opts, get_src_directory opts, get_obj_directory opts,
                    get_lib_directory opts, get_bin_directory opts} M fs))"
proof -
  define objs where "objs = map (\<lambda>i. get_source_file_path opts i ''src'')
                  (range 0 (count_of_leaf_source_files opts))"
  define mains where "mains = [get_source_file_path opts 0 ''main'']"
  obtain M1 where d1: "dom M1 =
        (\<lambda>i. get_source_file_path opts i ''src'') ` {0..<count_of_leaf_source_files opts}
        \<union> (\<lambda>j. get_source_file_path opts j ''lib'') ` {0..<n}
        \<union> {get_source_file_path opts 0 ''main''}"
    and g: "\<And>fs. generate_source_files opts fs =
          (Inr (objs, map (\<lambda>j. get_source_file_path opts j ''lib'') (range 0 n), mains),
           overlay {} M1 fs)"
    using generate_source_files_overlay[OF assms] unfolding objs_def mains_def by blast
  obtain c where c: "\<And>fs. generate_ninja_file opts objs
        (map (\<lambda>j. get_source_file_path opts j ''lib'') (range 0 n)) mains fs =
      (Inr (), overlay {} [get_ninja_file_path opts \<mapsto> c] fs)"
    using generate_ninja_file_overlay[OF assms, of objs _ mains] by blast
  define M where "M = M1 ++ [get_ninja_file_path opts \<mapsto> c]"
  have d: "dom M =
        (\<lambda>i. get_source_file_path opts i ''src'') ` {0..<count_of_leaf_source_files opts}
        \<union> (\<lambda>j. get_source_file_path opts j ''lib'') ` {0..<n}
        \<union> {get_source_file_path opts 0 ''main'', get_ninja_file_path opts}"
    unfolding M_def using d1 by auto
  have "\<forall>fs. main_generate opts fs =
          (Inr (),
           overlay {get_build_directory opts, get_src_directory opts, get_obj_directory opts,
                    get_lib_directory opts, get_bin_directory opts} M fs)"
    by (simp add: main_generate_def Let_def g c create_output_dirs_overlay overlay_overlay M_def)
  then show ?thesis using d by blast
qed

lemma overlay_files_inside: "p \<in> dom M \<Longrightarrow> files (overlay D M fs) p = M p"
  by (auto simp: overlay_def map_add_def split: option.splits)

text \<open>
  Claim C7. The generation phase is a function of the configuration alone: there are an
  outcome \<open>r\<close>, a set of directories \<open>D\<close> and file contents \<open>M\<close>, determined by the
  configuration, such that from every initial file system the run returns \<open>r\<close>, creates
  the directories \<open>D\<close> and leaves exactly the contents \<open>M\<close> in the files it writes. So
  two runs, from whatever file systems, end with the same outcome and with identical
  contents in every generated file; when the library count is computed the run succeeds
  and the generated files are the leaf units, the library units, the root unit and the
  build plan; when its computation fails the run fails with that error.
\<close>

theorem generation_deterministic:
  "\<exists>r D M.
      (\<forall>fs. main_generate opts fs = (r, overlay D M fs))
    \<and> (\<forall>fs fs'. fst (main_generate opts fs) = fst (main_generate opts fs')
          \<and> (\<forall>p\<in>dom M. files (snd (main_generate opts fs)) p
                           = files (snd (main_generate opts fs')) p))
    \<and> (\<forall>n. get_num_libraries_to_build opts = Inr n \<longrightarrow>
          r = Inr ()
        \<and> dom M =
            (\<lambda>i. get_source_file_path opts i ''src'') ` {0..<count_of_leaf_source_files opts}
            \<union> (\<lambda>j. get_source_file_path opts j ''lib'') ` {0..<n}
            \<union> {get_source_file_path opts 0 ''main'', get_ninja_file_path opts})
    \<and> (\<forall>e. get_num_libraries_to_build opts = Inl e \<longrightarrow> r = Inl e)"
proof -
  define D where "D = {get_build_directory opts, get_src_directory opts, get_obj_directory opts,
                    get_lib_directory opts, get_bin_directory opts}"
  have two_runs: "\<forall>fs fs'. fst (main_generate opts fs) = fst (main_generate opts fs')
          \<and> (\<forall>p\<in>dom M. files (snd (main_generate opts fs)) p
                           = files (snd (main_generate opts fs')) p)"
    if "\<forall>fs. main_generate opts fs = (r, overlay D M fs)" for r M
    using that by (simp add: overlay_files_inside)
  show ?thesis
  proof (cases "get_num_libraries_to_build opts")
    case (Inl e)
    have run: "\<forall>fs. main_generate opts fs =
        (Inl e, overlay D (leaf_files opts (range 0 (count_of_leaf_source_files opts))) fs)"
      unfolding D_def using main_generate_fails[OF Inl] by blast
    have ok: "\<forall>n. get_num_libraries_to_build opts = Inr n \<longrightarrow>
          Inl e = (Inr () :: error + unit)
        \<and> dom (leaf_files opts (range 0 (count_of_leaf_source_files opts))) =
            (\<lambda>i. get_source_file_path opts i ''src'') ` {0..<count_of_leaf_source_files opts}
            \<union> (\<lambda>j. get_source_file_path opts j ''lib'') ` {0..<n}
            \<union> {get_source_file_path opts 0 ''main'', get_ninja_file_path opts}"
      by (simp add: Inl)
    have failed: "\<forall>e'. get_num_libraries_to_build opts = Inl e' \<longrightarrow>
          (Inl e :: error + unit) = Inl e'"
      by (simp add: Inl)
    from run two_runs[OF run] ok failed show ?thesis
      by (intro exI[of _ "Inl e"] exI[of _ D]
          exI[of _ "leaf_files opts (range 0 (count_of_leaf_source_files opts))"] conjI)
  next
    case (Inr n)
    obtain M where d: "dom M =
        (\<lambda>i. get_source_file_path opts i ''src'') ` {0..<count_of_leaf_source_files opts}
        \<union> (\<lambda>j. get_source_file_path opts j ''lib'') ` {0..<n}
        \<union> {get_source_file_path opts 0 ''main'', get_ninja_file_path opts}"
      and run: "\<forall>fs. main_generate opts fs = (Inr (), overlay D M fs)"
      unfolding D_def using main_generate_overlay[OF Inr] by blast
    have ok: "\<forall>n'. get_num_libraries_to_build opts = Inr n' \<longrightarrow>
          Inr () = (Inr () :: error + unit)
        \<and> dom M =
            (\<lambda>i. get_source_file_path opts i ''src'') ` {0..<count_of_leaf_source_files opts}
            \<union> (\<lambda>j. get_source_file_path opts j ''lib'') ` {0..<n'}
            \<union> {get_source_file_path opts 0 ''main'', get_ninja_file_path opts}"
      using d by (simp add: Inr)
    have failed: "\<forall>e. get_num_libraries_to_build opts = Inl e \<longrightarrow>
          (Inr () :: error + unit) = Inl e"
      by (simp add: Inr)
    from run two_runs[OF run] ok failed show ?thesis
      by (intro exI[of _ "Inr ()"] exI[of _ D] exI[of _ M] conjI)
  qed
qed

theorem generation_deterministic_witness:
  "get_num_libraries_to_build example_5_2 = Inr 3
   \<and> fst (main_generate example_5_2 empty_filesystem)
       = fst (main_generate example_5_2 stale_filesystem)
   \<and> files (snd (main_generate example_5_2 empty_filesystem)) ''build/build.ninja''
       = files (snd (main_generate example_5_2 stale_filesystem)) ''build/build.ninja''"
proof -
  have num: "get_num_libraries_to_build example_5_2 = Inr 3"
    by (rule num_libraries_examples)
  have ninja: "get_ninja_file_path example_5_2 = ''build/build.ninja''"
    by (simp add: example_5_2_def get_ninja_file_path_def get_build_directory_def
        os_path_join_def)
  obtain r D M where P:
    "(\<forall>fs. main_generate example_5_2 fs = (r, overlay D M fs))
    \<and> (\<forall>fs fs'. fst (main_generate example_5_2 fs) = fst (main_generate example_5_2 fs')
          \<and> (\<forall>p\<in>dom M. files (snd (main_generate example_5_2 fs)) p
                           = files (snd (main_generate example_5_2 fs')) p))
    \<and> (\<forall>n. get_num_libraries_to_build example_5_2 = Inr n \<longrightarrow>
          r = Inr ()
        \<and> dom M =
            (\<lambda>i. get_source_file_path example_5_2 i ''src'')
              ` {0..<count_of_leaf_source_files example_5_2}
            \<union> (\<lambda>j. get_source_file_path example_5_2 j ''lib'') ` {0..<n}
            \<union> {get_source_file_path example_5_2 0 ''main'',
                get_ninja_file_path example_5_2})
    \<and> (\<forall>e. get_num_libraries_to_build example_5_2 = Inl e \<longrightarrow> r = Inl e)"
    using generation_deterministic[of example_5_2] by (elim exE) (rule that)
  note a = conjunct1[OF conjunct2[OF P]]
  note c = mp[OF spec[OF conjunct1[OF conjunct2[OF conjunct2[OF P]]], of 3] num]
  have b: "''build/build.ninja'' \<in> dom M"
    unfolding conjunct2[OF c] ninja by simp
  note a' = a[THEN spec, THEN spec, of empty_filesystem stale_filesystem]
  have "files (snd (main_generate example_5_2 empty_filesystem)) ''build/build.ninja''
       = files (snd (main_generate example_5_2 stale_filesystem)) ''build/build.ninja''"
    using conjunct2[OF a'] b by (rule bspec)
  then show ?thesis using num conjunct1[OF a'] by (intro conjI)
qed

section \<open>The build plan in closed form\<close>

lemma unit_source_eq: "get_source_file_path opts i prefix = unit_source opts prefix i"
  by (simp add: source_file_path_eq unit_source_def get_src_directory_def
      get_build_directory_def get_src_name_padding_def)

lemma unit_object_eq:
  assumes "0 \<le> i" "CHR ''.'' \<notin> set prefix" "CHR ''/'' \<notin> set prefix"
  shows "get_obj_file_path opts (unit_source opts prefix i) = unit_object opts prefix i"
  unfolding unit_source_eq[symmetric] obj_of_source[OF assms]
  by (simp add: unit_object_def get_obj_directory_def get_build_directory_def
      get_src_name_padding_def)

lemma library_archive_eq:
  "get_num_libraries_to_build opts = Inr n \<Longrightarrow>
   get_lib_file_path opts j = Inr (library_archive opts n j)"
  by (simp add: lib_file_path_ok library_archive_def get_lib_directory_def
      get_build_directory_def)

lemma executable_eq: "get_get_bin_file_path opts ''lod'' = executable opts"
  by (simp add: get_get_bin_file_path_def executable_def get_bin_directory_def
      get_build_directory_def)

lemma map_unit_object:
  assumes "\<forall>i\<in>set js. 0 \<le> i" "CHR ''.'' \<notin> set prefix" "CHR ''/'' \<notin> set prefix"
  shows "map (get_obj_file_path opts) (map (unit_source opts prefix) js)
     = map (unit_object opts prefix) js"
  using assms(1) by (induction js) (simp_all add: unit_object_eq[OF _ assms(2,3)])



lemma compile_edges_closed:
  assumes "\<forall>i\<in>set js. 0 \<le> i" "CHR ''.'' \<notin> set prefix" "CHR ''/'' \<notin> set prefix"
  shows "map (\<lambda>src_file. ''build '' @ get_obj_file_path opts src_file @ '': cc '' @ src_file)
           (map (unit_source opts prefix) js)
     = map (compile_edge opts prefix) js"
  using assms(1)
  by (induction js) (simp_all add: unit_object_eq[OF _ assms(2,3)] compile_edge_def)

lemma archive_edge_closed:
  assumes "1 \<le> library_object_count opts" "get_num_libraries_to_build opts = Inr n"
    "0 \<le> j" "j < n"
  shows "''build '' @ library_archive opts n j @ '': archive '' @
         str_join '' ''
           (map (get_obj_file_path opts)
              (map (unit_source opts ''src'')
                 (range (fst (get_lib_src_indices opts j)) (snd (get_lib_src_indices opts j)))
               @ [unit_source opts ''lib'' j]))
     = archive_edge opts n j"
proof -
  have "0 \<le> fst (get_lib_src_indices opts j)"
    using assms(1,3) by (rule lib_range_bounds(1))
  then have nonneg: "\<forall>i\<in>set (range (fst (get_lib_src_indices opts j))
                                   (snd (get_lib_src_indices opts j))). 0 \<le> i"
    by (simp add: set_range)
  have leaves: "map (get_obj_file_path opts)
              (map (unit_source opts ''src'')
                 (range (fst (get_lib_src_indices opts j)) (snd (get_lib_src_indices opts j))))
      = map (unit_object opts ''src'')
          (range (fst (get_lib_src_indices opts j)) (snd (get_lib_src_indices opts j)))"
    using nonneg by (rule map_unit_object) simp_all
  have lib: "get_obj_file_path opts (unit_source opts ''lib'' j) = unit_object opts ''lib'' j"
    using assms(3) by (rule unit_object_eq) simp_all
  show ?thesis
    unfolding archive_edge_def map_append leaves
    by (simp add: lib lib_src_indices_eq)
qed

lemma archive_edges_closed:
  assumes "1 \<le> library_object_count opts" "get_num_libraries_to_build opts = Inr n"
    "\<forall>j\<in>set js. 0 \<le> j \<and> j < n"
  shows "map (\<lambda>(lib_name, lib_sources).
                ''build '' @ lib_name @ '': archive '' @
                str_join '' '' (map (get_obj_file_path opts) lib_sources))
           (map (\<lambda>j. (library_archive opts n j,
                        map (unit_source opts ''src'')
                          (range (fst (get_lib_src_indices opts j))
                                 (snd (get_lib_src_indices opts j)))
                        @ [unit_source opts ''lib'' j])) js)
     = map (archive_edge opts n) js"
  using assms(3)
proof (induction js)
  case Nil
  show ?case by simp
next
  case (Cons j rest)
  have j: "0 \<le> j" "j < n" using Cons(2) by simp_all
  have r: "\<forall>j\<in>set rest. 0 \<le> j \<and> j < n" using Cons(2) by simp
  show ?case
    unfolding list.map prod.case Cons(1)[OF r] archive_edge_closed[OF assms(1,2) j] ..
qed

lemma link_edge_closed:
  "''build '' @ executable opts @ '': link '' @
     str_join '' ''
       (map (get_obj_file_path opts) [unit_source opts ''main'' 0]
        @ map fst (map (\<lambda>j. (library_archive opts n j, g j)) js))
   = ''build '' @ executable opts @ '': link '' @
     str_join '' '' (unit_object opts ''main'' 0 # map (library_archive opts n) js)"
proof -
  have "get_obj_file_path opts (unit_source opts ''main'' 0) = unit_object opts ''main'' 0"
    by (rule unit_object_eq) simp_all
  then show ?thesis by (simp add: comp_def)
qed

lemma ninja_lines_closed:
  assumes "1 \<le> library_object_count opts" "get_num_libraries_to_build opts = Inr n"
  shows "ninja_lines opts
           (map (unit_source opts ''src'') (range 0 (count_of_leaf_source_files opts)))
           (map (unit_source opts ''lib'') (range 0 n))
           [unit_source opts ''main'' 0]
           (map (\<lambda>j. (library_archive opts n j,
                        map (unit_source opts ''src'')
                          (range (fst (get_lib_src_indices opts j))
                                 (snd (get_lib_src_indices opts j)))
                        @ [unit_source opts ''lib'' j])) (range 0 n))
     = plan_lines opts n"
proof -
  have leaf: "map (\<lambda>src_file. ''build '' @ get_obj_file_path opts src_file @ '': cc '' @ src_file)
           (map (unit_source opts ''src'') (range 0 (count_of_leaf_source_files opts)))
     = map (compile_edge opts ''src'') (range 0 (count_of_leaf_source_files opts))"
    by (rule compile_edges_closed) (simp_all add: set_range)
  have lib: "map (\<lambda>src_file. ''build '' @ get_obj_file_path opts src_file @ '': cc '' @ src_file)
           (map (unit_source opts ''lib'') (range 0 n))
     = map (compile_edge opts ''lib'') (range 0 n)"
    by (rule compile_edges_closed) (simp_all add: set_range)
  have main: "map (\<lambda>src_file. ''build '' @ get_obj_file_path opts src_file @ '': cc '' @ src_file)
           (map (unit_source opts ''main'') [0])
     = map (compile_edge opts ''main'') [0]"
    by (rule compile_edges_closed) simp_all
  have arch: "map (\<lambda>(lib_name, lib_sources).
                ''build '' @ lib_name @ '': archive '' @
                str_join '' '' (map (get_obj_file_path opts) lib_sources))
           (map (\<lambda>j. (library_archive opts n j,
                        map (unit_source opts ''src'')
                          (range (fst (get_lib_src_indices opts j))
                                 (snd (get_lib_src_indices opts j)))
                        @ [unit_source opts ''lib'' j])) (range 0 n))
     = map (archive_edge opts n) (range 0 n)"
    using assms by (rule archive_edges_closed) (simp add: set_range)
  show ?thesis
    unfolding ninja_lines_def Let_def map_append leaf lib arch executable_eq link_edge_closed
    using main
    by (simp add: plan_lines_def plan_preamble_def ninja_section_def link_edge_def
        default_target_def)
qed


section \<open>Artifact paths are pairwise different\<close>

lemma artifact_key_name: "name_key (artifact_name opts n a) = artifact_key a"
  by (cases a) (simp_all add: name_key_def)

lemma artifact_key_same:
  "artifact_key a = artifact_key b \<Longrightarrow>
     (\<exists>i j. a = LeafSource i \<and> b = LeafSource j)
   \<or> (\<exists>i j. a = LibrarySource i \<and> b = LibrarySource j)
   \<or> (\<exists>i j. a = LeafObject i \<and> b = LeafObject j)
   \<or> (\<exists>i j. a = LibraryObject i \<and> b = LibraryObject j)
   \<or> (\<exists>i j. a = Archive i \<and> b = Archive j)
   \<or> a = b"
  by (cases a; cases b) simp_all

lemma artifact_name_inj:
  assumes "0 \<le> artifact_index a" "0 \<le> artifact_index b"
    "artifact_name opts n a = artifact_name opts n b"
  shows "a = b"
proof -
  have "artifact_key a = artifact_key b"
    using assms(3) artifact_key_name[of opts n a] artifact_key_name[of opts n b] by simp
  from artifact_key_same[OF this] consider
      i j where "a = LeafSource i" "b = LeafSource j"
    | i j where "a = LibrarySource i" "b = LibrarySource j"
    | i j where "a = LeafObject i" "b = LeafObject j"
    | i j where "a = LibraryObject i" "b = LibraryObject j"
    | i j where "a = Archive i" "b = Archive j"
    | "a = b"
    by (elim disjE exE conjE) blast+
  then show ?thesis
  proof cases
    case 1 then show ?thesis using assms by (auto dest: format_zero_inj[rotated 2])
  next
    case 2 then show ?thesis using assms by (auto dest: format_zero_inj[rotated 2])
  next
    case 3 then show ?thesis using assms by (auto dest: format_zero_inj[rotated 2])
  next
    case 4 then show ?thesis using assms by (auto dest: format_zero_inj[rotated 2])
  next
    case 5 then show ?thesis using assms by (auto dest: format_zero_inj[rotated 2])
  next
    case 6 then show ?thesis .
  qed
qed

lemma artifact_name_no_slash:
  assumes "0 \<le> artifact_index a"
  shows "CHR ''/'' \<notin> set (artifact_name opts n a)"
  using assms format_zero_free[OF _ is_digit_not_special(1)]
  by (cases a) simp_all

lemma artifact_name_nonempty: "artifact_name opts n a \<noteq> []"
  by (cases a) simp_all

lemma artifact_path_join:
  "\<exists>d. artifact_path opts n a = os_path_join d (artifact_name opts n a)"
  by (cases a) (auto simp: unit_source_def unit_object_def library_archive_def executable_def)

lemma basename_artifact_path:
  assumes "0 \<le> artifact_index a"
  shows "os_path_basename (artifact_path opts n a) = artifact_name opts n a"
proof -
  obtain d where "artifact_path opts n a = os_path_join d (artifact_name opts n a)"
    using artifact_path_join by blast
  then show ?thesis
    using basename_join[OF artifact_name_nonempty artifact_name_no_slash[OF assms]] by simp
qed

lemma artifact_path_inj:
  assumes "0 \<le> artifact_index a" "0 \<le> artifact_index b"
    "artifact_path opts n a = artifact_path opts n b"
  shows "a = b"
proof -
  have "artifact_name opts n a = artifact_name opts n b"
    using assms(3) basename_artifact_path[OF assms(1), of opts n]
      basename_artifact_path[OF assms(2), of opts n] by simp
  with assms(1,2) show ?thesis by (rule artifact_name_inj)
qed

lemma all_artifacts_nonneg: "a \<in> set (all_artifacts L n) \<Longrightarrow> 0 \<le> artifact_index a"
  by (auto simp: all_artifacts_def set_range)

lemma distinct_range: "distinct (range a b)"
  by (simp add: range_def)

lemma distinct_all_artifacts: "distinct (all_artifacts L n)"
  by (auto simp: all_artifacts_def distinct_map distinct_range inj_on_def)

lemma distinct_artifact_paths:
  "distinct (map (artifact_path opts n) (all_artifacts L n))"
  unfolding distinct_map
proof (intro conjI inj_onI)
  show "distinct (all_artifacts L n)" by (rule distinct_all_artifacts)
next
  fix a b
  assume "a \<in> set (all_artifacts L n)" "b \<in> set (all_artifacts L n)"
    "artifact_path opts n a = artifact_path opts n b"
  then show "a = b"
    using all_artifacts_nonneg artifact_path_inj by blast
qed

lemma generate_source_files_units:
  assumes "get_num_libraries_to_build opts = Inr n"
  shows "\<exists>fs1. generate_source_files opts fs =
     (Inr (map (unit_source opts ''src'') (range 0 (count_of_leaf_source_files opts)),
           map (unit_source opts ''lib'') (range 0 n),
           [unit_source opts ''main'' 0]), fs1)"
  using generate_source_files_paths[OF assms, of fs]
  by (cases "generate_source_files opts fs") (simp add: unit_source_eq)

lemma artifact_paths_eq:
  "map (unit_source opts ''src'') (range 0 L)
   @ map (unit_source opts ''lib'') (range 0 n)
   @ [unit_source opts ''main'' 0]
   @ map (get_obj_file_path opts)
       (map (unit_source opts ''src'') (range 0 L)
        @ map (unit_source opts ''lib'') (range 0 n)
        @ [unit_source opts ''main'' 0])
   @ map (library_archive opts n) (range 0 n)
   @ [get_main_exe opts, get_ninja_file_path opts]
   = map (artifact_path opts n) (all_artifacts L n)"
proof -
  have a: "map (get_obj_file_path opts) (map (unit_source opts ''src'') (range 0 L))
      = map (unit_object opts ''src'') (range 0 L)"
    by (rule map_unit_object) (simp_all add: set_range)
  have b: "map (get_obj_file_path opts) (map (unit_source opts ''lib'') (range 0 n))
      = map (unit_object opts ''lib'') (range 0 n)"
    by (rule map_unit_object) (simp_all add: set_range)
  have c: "get_obj_file_path opts (unit_source opts ''main'' 0) = unit_object opts ''main'' 0"
    by (rule unit_object_eq) simp_all
  show ?thesis
    unfolding map_append a b list.map c
    by (simp add: all_artifacts_def comp_def get_main_exe_def executable_eq
        get_ninja_file_path_def get_build_directory_def)
qed

text \<open>
  Claim C9. For a leaf count \<open>\<ge> 0\<close> and a capacity \<open>\<ge> 1\<close>, the paths of all generated
  artifacts are pairwise different: the leaf, library and root sources that the
  generators return, the objects derived from them, the library archives, the
  executable and the build plan. When the library count cannot be computed, the
  generators fail after the leaf units, whose paths are pairwise different.
\<close>

theorem artifact_paths_distinct:
  assumes "0 \<le> count_of_leaf_source_files opts" and "1 \<le> library_object_count opts"
  shows "(\<forall>n. get_num_libraries_to_build opts = Inr n \<longrightarrow>
      (\<exists>objs libs mains fs1.
          generate_source_files opts fs = (Inr (objs, libs, mains), fs1)
        \<and> (\<forall>j. get_lib_file_path opts j = Inr (library_archive opts n j))
        \<and> distinct (objs @ libs @ mains
                    @ map (get_obj_file_path opts) (objs @ libs @ mains)
                    @ map (library_archive opts n) (range 0 n)
                    @ [get_main_exe opts, get_ninja_file_path opts])))
    \<and> (\<forall>e. get_num_libraries_to_build opts = Inl e \<longrightarrow>
          fst (generate_source_files opts fs) = Inl e
        \<and> distinct (fst (generate_obj_source_files opts fs)))"
proof (intro conjI allI impI)
  fix n assume n: "get_num_libraries_to_build opts = Inr n"
  obtain fs1 where g: "generate_source_files opts fs =
     (Inr (map (unit_source opts ''src'') (range 0 (count_of_leaf_source_files opts)),
           map (unit_source opts ''lib'') (range 0 n),
           [unit_source opts ''main'' 0]), fs1)"
    using generate_source_files_units[OF n] by blast
  have a: "\<forall>j. get_lib_file_path opts j = Inr (library_archive opts n j)"
    using library_archive_eq[OF n] by blast
  have d: "distinct (map (unit_source opts ''src'') (range 0 (count_of_leaf_source_files opts))
                @ map (unit_source opts ''lib'') (range 0 n)
                @ [unit_source opts ''main'' 0]
                @ map (get_obj_file_path opts)
                    (map (unit_source opts ''src'') (range 0 (count_of_leaf_source_files opts))
                     @ map (unit_source opts ''lib'') (range 0 n)
                     @ [unit_source opts ''main'' 0])
                @ map (library_archive opts n) (range 0 n)
                @ [get_main_exe opts, get_ninja_file_path opts])"
    unfolding artifact_paths_eq by (rule distinct_artifact_paths)
  show "\<exists>objs libs mains fs1.
          generate_source_files opts fs = (Inr (objs, libs, mains), fs1)
        \<and> (\<forall>j. get_lib_file_path opts j = Inr (library_archive opts n j))
        \<and> distinct (objs @ libs @ mains
                    @ map (get_obj_file_path opts) (objs @ libs @ mains)
                    @ map (library_archive opts n) (range 0 n)
                    @ [get_main_exe opts, get_ninja_file_path opts])"
    apply (rule exI[of _ "map (unit_source opts ''src'') (range 0 (count_of_leaf_source_files opts))"])
    apply (rule exI[of _ "map (unit_source opts ''lib'') (range 0 n)"])
    apply (rule exI[of _ "[unit_source opts ''main'' 0]"])
    apply (rule exI[of _ fs1])
    using g a d by (simp only: append_assoc simp_thms)
next
  fix e assume e: "get_num_libraries_to_build opts = Inl e"
  show "fst (generate_source_files opts fs) = Inl e"
    by (simp add: generate_source_files_fails[OF e])
next
  fix e
  have "distinct (map (artifact_path opts 0)
      (all_artifacts (count_of_leaf_source_files opts) 0))"
    by (rule distinct_artifact_paths)
  then have "distinct (map (unit_source opts ''src'')
      (range 0 (count_of_leaf_source_files opts)))"
    unfolding artifact_paths_eq[symmetric] by simp
  then show "distinct (fst (generate_obj_source_files opts fs))"
    by (simp add: generate_obj_source_files_paths unit_source_eq)
qed

theorem artifact_paths_distinct_witness:
  "0 \<le> count_of_leaf_source_files example_5_2 \<and> 1 \<le> library_object_count example_5_2
   \<and> get_num_libraries_to_build example_5_2 = Inr 3
   \<and> get_source_file_path example_5_2 1 ''src'' = ''build/src/src_1.cpp''
   \<and> get_source_file_path example_5_2 1 ''lib'' = ''build/src/lib_1.cpp''
   \<and> get_obj_file_path example_5_2 ''build/src/src_1.cpp'' = ''build/obj/src_1.o''
   \<and> get_obj_file_path example_5_2 ''build/src/lib_1.cpp'' = ''build/obj/lib_1.o''
   \<and> get_lib_file_path example_5_2 1 = Inr ''build/lib/lib_1.a''
   \<and> get_main_exe example_5_2 = ''build/bin/lod''
   \<and> get_ninja_file_path example_5_2 = ''build/build.ninja''"
proof -
  have h: "0 \<le> count_of_leaf_source_files example_5_2" "1 \<le> library_object_count example_5_2"
    by (simp_all add: example_5_2_def)
  have num: "get_num_libraries_to_build example_5_2 = Inr 3"
    by (rule num_libraries_examples)
  have c: "get_source_file_path example_5_2 1 ''src'' = ''build/src/src_1.cpp''"
    "get_source_file_path example_5_2 1 ''lib'' = ''build/src/lib_1.cpp''"
    "get_main_exe example_5_2 = ''build/bin/lod''"
    "get_ninja_file_path example_5_2 = ''build/build.ninja''"
    by (simp_all add: example_5_2_def get_source_file_path_def get_src_directory_def
        get_build_directory_def get_src_name_padding_def os_path_join_def format_zero_def
        get_main_exe_def get_get_bin_file_path_def
        get_bin_directory_def get_ninja_file_path_def
        str_def str_nat_values Let_def)
  have a: "get_lib_file_path example_5_2 1 = Inr ''build/lib/lib_1.a''"
    unfolding lib_file_path_ok[OF num]
    by (simp add: example_5_2_def get_lib_directory_def get_build_directory_def
        os_path_join_def format_zero_def str_def str_nat_values)
  have o: "get_obj_file_path example_5_2 ''build/src/src_1.cpp'' = ''build/obj/src_1.o''"
    "get_obj_file_path example_5_2 ''build/src/lib_1.cpp'' = ''build/obj/lib_1.o''"
    using obj_of_source[of 1 "''src''" example_5_2] obj_of_source[of 1 "''lib''" example_5_2]
    unfolding c
    by (simp_all add: example_5_2_def get_obj_directory_def get_build_directory_def
        get_src_name_padding_def os_path_join_def format_zero_def str_def str_nat_values)
  show ?thesis
    using artifact_paths_distinct[OF h, of empty_filesystem] h num c a o by (intro conjI)
qed

section \<open>The edges of the build plan\<close>






section \<open>A run without leaves\<close>

lemma range_empty: "b \<le> a \<Longrightarrow> range a b = []"
  by (simp add: range_def)

lemma width_of_zero: "length (str 0) = 1"
  by (simp add: str_def str_nat_values)

lemma format_zero_0_1: "format_zero 0 (Suc 0) = ''0''"
  by (simp add: format_zero_def str_nat_values)

text \<open>
  Claim C8. With no leaves and a capacity \<open>\<ge> 1\<close> there is no library; the generators
  write no leaf unit and no library unit and return only the root unit, whose entry point
  adds nothing to \<^verbatim>\<open>ret = 0\<close> and returns it; the run succeeds, and in the build plan
  the only compile edge is the root's, there is no archive edge, and the link edge has
  the root object as its only input.
\<close>

theorem no_leaves:
  assumes "count_of_leaf_source_files opts = 0" and "1 \<le> library_object_count opts"
  shows "get_num_libraries_to_build opts = Inr 0
    \<and> generate_source_files opts fs =
        (Inr ([], [], [os_path_join (os_path_join (output_directory opts) ''src'') ''main_0.cpp'']),
         write_file (os_path_join (os_path_join (output_directory opts) ''src'') ''main_0.cpp'')
           (''\<newline>'' @
            ''int main() {\<newline>'' @
            ''  int ret = 0;\<newline>'' @
            ''  return ret;\<newline>'' @
            ''}\<newline>'') fs)
    \<and> main_generate opts fs =
        (Inr (),
         write_file (os_path_join (output_directory opts) ''build.ninja'')
           (concat (map (\<lambda>s. s @ ''\<newline>'')
              (plan_preamble opts @
               [[], ''#'', ''# Build object files'', ''#'',
                ''build '' @ os_path_join (os_path_join (output_directory opts) ''obj'') ''main_0.o''
                  @ '': cc ''
                  @ os_path_join (os_path_join (output_directory opts) ''src'') ''main_0.cpp'',
                [], ''#'', ''# Build libraries'', ''#'',
                [], ''#'', ''# Build main executable'', ''#'',
                ''build '' @ os_path_join (os_path_join (output_directory opts) ''bin'') ''lod''
                  @ '': link ''
                  @ os_path_join (os_path_join (output_directory opts) ''obj'') ''main_0.o'',
                [], ''#'', ''# Define the default target'', ''#'',
                ''default '' @ os_path_join (os_path_join (output_directory opts) ''bin'') ''lod''])))
           (write_file (os_path_join (os_path_join (output_directory opts) ''src'') ''main_0.cpp'')
              (''\<newline>'' @
               ''int main() {\<newline>'' @
               ''  int ret = 0;\<newline>'' @
               ''  return ret;\<newline>'' @
               ''}\<newline>'')
              (create_output_dirs opts fs)))"
proof -
  have cap: "library_object_count opts \<noteq> 0" using assms(2) by simp
  have n: "get_num_libraries_to_build opts = Inr 0"
    using assms(1) cap by (rule num_libraries_no_leaves)
  have pad: "get_lib_name_padding opts = Inr 1"
    by (simp add: get_lib_name_padding_def n width_of_zero)
  have root: "get_source_file_path opts 0 ''main''
      = os_path_join (os_path_join (output_directory opts) ''src'') ''main_0.cpp''"
    by (simp add: unit_source_eq unit_source_def assms(1) width_of_zero format_zero_0_1)
  have us: "unit_source opts ''main'' 0
      = os_path_join (os_path_join (output_directory opts) ''src'') ''main_0.cpp''"
    using root by (simp add: unit_source_eq)
  have uo: "unit_object opts ''main'' 0
      = os_path_join (os_path_join (output_directory opts) ''obj'') ''main_0.o''"
    by (simp add: unit_object_def assms(1) width_of_zero format_zero_0_1)
  have g: "generate_source_files opts fs' =
        (Inr ([], [], [os_path_join (os_path_join (output_directory opts) ''src'') ''main_0.cpp'']),
         write_file (os_path_join (os_path_join (output_directory opts) ''src'') ''main_0.cpp'')
           (''\<newline>'' @
            ''int main() {\<newline>'' @
            ''  int ret = 0;\<newline>'' @
            ''  return ret;\<newline>'' @
            ''}\<newline>'') fs')" for fs'
    by (simp add: generate_source_files_def generate_obj_source_files_def
        generate_lib_source_files_def generate_main_source_files_def
        generate_main_source_file_def n pad root assms(1) range_empty Let_def)
  have lines: "plan_lines opts 0 =
       plan_preamble opts @
               [[], ''#'', ''# Build object files'', ''#'',
                ''build '' @ os_path_join (os_path_join (output_directory opts) ''obj'') ''main_0.o''
                  @ '': cc ''
                  @ os_path_join (os_path_join (output_directory opts) ''src'') ''main_0.cpp'',
                [], ''#'', ''# Build libraries'', ''#'',
                [], ''#'', ''# Build main executable'', ''#'',
                ''build '' @ os_path_join (os_path_join (output_directory opts) ''bin'') ''lod''
                  @ '': link ''
                  @ os_path_join (os_path_join (output_directory opts) ''obj'') ''main_0.o'',
                [], ''#'', ''# Define the default target'', ''#'',
                ''default '' @ os_path_join (os_path_join (output_directory opts) ''bin'') ''lod'']"
    by (simp add: plan_lines_def assms(1) range_empty compile_edge_def link_edge_def
        default_target_def us uo executable_def)
  have closed: "ninja_lines opts [] [] [unit_source opts ''main'' 0] [] = plan_lines opts 0"
    using ninja_lines_closed[OF assms(2) n] by (simp add: assms(1) range_empty)
  have split: "split_object_files_into_libraries opts [] [] = Inr []"
    by (simp add: split_object_files_into_libraries_def n range_empty)
  have p: "generate_ninja_file opts [] []
        [os_path_join (os_path_join (output_directory opts) ''src'') ''main_0.cpp''] fs' =
        (Inr (),
         write_file (os_path_join (output_directory opts) ''build.ninja'')
           (concat (map (\<lambda>s. s @ ''\<newline>'') (plan_lines opts 0))) fs')" for fs'
    using closed unfolding us
    by (simp add: generate_ninja_file_def split Let_def get_ninja_file_path_def
        get_build_directory_def)
  have m: "main_generate opts fs =
        (Inr (),
         write_file (os_path_join (output_directory opts) ''build.ninja'')
           (concat (map (\<lambda>s. s @ ''\<newline>'') (plan_lines opts 0)))
           (write_file (os_path_join (os_path_join (output_directory opts) ''src'') ''main_0.cpp'')
              (''\<newline>'' @
               ''int main() {\<newline>'' @
               ''  int ret = 0;\<newline>'' @
               ''  return ret;\<newline>'' @
               ''}\<newline>'')
              (create_output_dirs opts fs)))"
    by (simp add: main_generate_def Let_def g p)
  show ?thesis using n g[of fs] m unfolding lines by (intro conjI)
qed


theorem no_leaves_witness:
  "count_of_leaf_source_files example_0_2 = 0 \<and> 1 \<le> library_object_count example_0_2
   \<and> fst (main_generate example_0_2 empty_filesystem) = Inr ()
   \<and> dom (files (snd (main_generate example_0_2 empty_filesystem)))
       = {''build/src/main_0.cpp'', ''build/build.ninja''}
   \<and> files (snd (main_generate example_0_2 empty_filesystem)) ''build/src/main_0.cpp''
       = Some (''\<newline>'' @
               ''int main() {\<newline>'' @
               ''  int ret = 0;\<newline>'' @
               ''  return ret;\<newline>'' @
               ''}\<newline>'')"
proof -
  have h: "count_of_leaf_source_files example_0_2 = 0" "1 \<le> library_object_count example_0_2"
    by (simp_all add: example_0_2_def)
  have out: "output_directory example_0_2 = ''build''" by (simp add: example_0_2_def)
  note run = conjunct2[OF conjunct2[OF no_leaves[OF h, of empty_filesystem]]]
  have f: "files (create_output_dirs example_0_2 empty_filesystem) = Map.empty"
    by (simp add: create_output_dirs_def makedirs_def empty_filesystem_def)
  show ?thesis
    unfolding run out using h f
    by (auto simp: write_file_def os_path_join_def)
qed


section \<open>The text of a library unit\<close>














lemma strip_affix_Nil: "pre \<noteq> [] \<Longrightarrow> strip_affix pre suf [] = None"
  by (simp add: strip_affix_def)











end
